theory Spec2Isabelle
  imports Complex_Main "HOL-Library.Log_Nat"
begin

section \<open>Exceptions and points\<close>

text \<open>
  The Python exceptions that the modelled functions can raise. A function that may raise
  returns \<open>error + 'a\<close>, with \<open>Inl\<close> for the exception.
\<close>

datatype error =
    IndexError | ZeroDivisionError | AssertionError | ValueError | NotImplementedError | AttributeError

text \<open>
  Modelled from the spec: the module \<open>polygon.py\<close> with the class \<open>Point2D\<close> is not among
  the sources. A point is an (x, y) pair with addition, subtraction, scalar scaling, inner
  product and Euclidean norm. The coordinates of a point are exact numbers (the code runs
  on \<open>Fraction\<close> coordinates); the arithmetic of \<open>float\<close> values is modelled for the
  control values of a \<open>BezierCurve\<close>, in the section on \<open>float\<close> control values.
\<close>

type_synonym point = "real \<times> real"

definition padd :: "point \<Rightarrow> point \<Rightarrow> point" where
  "padd p q = (fst p + fst q, snd p + snd q)"

definition psub :: "point \<Rightarrow> point \<Rightarrow> point" where
  "psub p q = (fst p - fst q, snd p - snd q)"

definition pscale :: "real \<Rightarrow> point \<Rightarrow> point" where
  "pscale k p = (k * fst p, k * snd p)"

definition inner :: "point \<Rightarrow> point \<Rightarrow> real" where
  "inner p q = fst p * fst q + snd p * snd q"

definition pabs :: "point \<Rightarrow> real" where
  "pabs p = sqrt (inner p p)"

section \<open>curve.py: Math and BezierCurve.eval\<close>

text \<open>
  \<open>Math.comb(n, i)\<close>: the product of \<open>range(n - i + 1, n + 1)\<close>, then floor-divided by
  each of \<open>range(2, i + 1)\<close> in turn.
\<close>

definition comb :: "int \<Rightarrow> int \<Rightarrow> int" where
  "comb n i = foldl (\<lambda>v j. v div j) (foldl (\<lambda>v j. v * j) 1 [n - i + 1 .. n]) [2 .. i]"

text \<open>
  \<open>Math.bezier_caract_matrix(degree)\<close>: a zero matrix of size \<open>degree + 1\<close> whose entry
  \<open>(i, j)\<close> with \<open>j < degree - i + 1\<close> is \<open>comb(degree, i) * comb(degree - i, j)\<close>, negated
  when \<open>degree + i + j\<close> is odd.
\<close>

definition bezier_caract_matrix :: "nat \<Rightarrow> int list list" where
  "bezier_caract_matrix degree =
     map (\<lambda>i. map (\<lambda>j.
            if j < degree - i + 1
            then (let val = comb (int degree) (int i) * comb (int degree - int i) (int j)
                  in if (degree + i + j) mod 2 \<noteq> 0 then - val else val)
            else 0) [0..<degree + 1]) [0..<degree + 1]"

text \<open>
  \<open>BezierCurve.eval\<close> computes with the control values themselves: a control value is a
  \<open>Point2D\<close>, or a coordinate (\<open>winding_number\<close> builds the curves of the \<open>x\<close> and of
  the \<open>y\<close> coordinates), which is an \<open>int\<close>, a \<open>Fraction\<close> or a \<open>float\<close>. The model takes
  the three operations that the evaluation applies to them as a parameter: the sum of two
  values, the product of a value with an integer (an entry of the matrix, and the \<open>0\<close> of
  \<open>0 * coefs[0]\<close>), and the product of a value with a node.
\<close>

record ('s, 'v) arith =
  arith_add :: "'v \<Rightarrow> 'v \<Rightarrow> 'v"
  arith_scale :: "'v \<Rightarrow> int \<Rightarrow> 'v"
  arith_times :: "'v \<Rightarrow> 's \<Rightarrow> 'v"

text \<open>
  \<open>Math.horner_method(node, coefs)\<close>: \<open>value = 0 * coefs[0]\<close>, then for every coefficient
  \<open>value *= node; value += coef\<close>. An empty coefficient tuple raises at \<open>coefs[0]\<close>.
\<close>

definition horner_method :: "('s, 'v) arith \<Rightarrow> 's \<Rightarrow> 'v list \<Rightarrow> error + 'v" where
  "horner_method A node coefs =
     (case coefs of
        [] \<Rightarrow> Inl IndexError
      | c # _ \<Rightarrow>
          Inr (foldl (\<lambda>v coef. arith_add A (arith_times A v node) coef) (arith_scale A c 0) coefs))"

text \<open>
  \<open>np.dot(ctrlpoints, matrix)\<close> for a tuple of values and a square integer matrix: entry
  \<open>j\<close> is the sum over \<open>i\<close> of \<open>ctrlpoints[i] * matrix[i][j]\<close>, the products added from
  left to right to the first one. The list of products is empty only for an empty tuple,
  which has no entry \<open>j\<close>.
\<close>

definition dot_points_matrix :: "('s, 'v) arith \<Rightarrow> 'v list \<Rightarrow> int list list \<Rightarrow> 'v list" where
  "dot_points_matrix A pts m =
     map (\<lambda>j. let products = map (\<lambda>i. arith_scale A (pts ! i) (m ! i ! j)) [0..<length pts]
              in foldl (arith_add A) (hd products) (tl products))
         [0..<length pts]"

text \<open>
  \<open>BezierCurve.eval(nodes)\<close> on a curve given by its control points. The degree is
  \<open>npts - 1\<close>; without control points \<open>bezier_caract_matrix\<close> fails its assertion
  \<open>degree >= 0\<close>.
\<close>

fun collect :: "(error + 'a) list \<Rightarrow> error + 'a list" where
  "collect [] = Inr []"
| "collect (Inl e # _) = Inl e"
| "collect (Inr x # rs) = (case collect rs of Inl e \<Rightarrow> Inl e | Inr xs \<Rightarrow> Inr (x # xs))"

definition eval :: "('s, 'v) arith \<Rightarrow> 'v list \<Rightarrow> 's list \<Rightarrow> error + 'v list" where
  "eval A ctrlpoints nodes =
     (if ctrlpoints = [] then Inl AssertionError
      else let matrix = bezier_caract_matrix (length ctrlpoints - 1);
               canon_pts = dot_points_matrix A ctrlpoints matrix
           in collect (map (\<lambda>node. horner_method A node canon_pts) nodes))"

text \<open>
  Modelled from the spec: the arithmetic of \<open>Point2D\<close> values with exact coordinates and
  exact nodes, from the missing \<open>polygon.py\<close>.
\<close>

definition point_arith :: "(real, point) arith" where
  "point_arith =
     \<lparr>arith_add = padd,
      arith_scale = (\<lambda>p k. pscale (real_of_int k) p),
      arith_times = (\<lambda>p node. pscale node p)\<rparr>"


section \<open>Control values of type float\<close>

text \<open>
  A Python \<open>float\<close> is an IEEE 754 binary64 number: a finite value, one of the two
  infinities, or NaN. A finite value is given by the real number it stands for; the two
  zeros are one value (they are equal under \<open>==\<close>).
\<close>

datatype float64 = Finite real | PosInf | NegInf | NaN


text \<open>Rounding to the nearest integer, a tie to the even one.\<close>

definition round_half_even :: "real \<Rightarrow> int" where
  "round_half_even x =
     (let f = \<lfloor>x\<rfloor>
      in if x - of_int f < 1 / 2 then f
         else if x - of_int f > 1 / 2 then f + 1
         else if even f then f else f + 1)"

text \<open>
  The binary exponent of a positive number \<open>a\<close>, the integer \<open>k\<close> with
  \<open>2 ^ k \<le> a < 2 ^ (k + 1)\<close>, from the bit length of the integer part of \<open>a\<close> or
  of \<open>1 / a\<close>.
\<close>

definition floor_log2 :: "real \<Rightarrow> int" where
  "floor_log2 a =
     (if 1 \<le> a then bitlen \<lfloor>a\<rfloor> - 1
      else let n = bitlen \<lfloor>1 / a\<rfloor> - 1
           in if 1 / a = 2 ^ nat n then - n else - n - 1)"

text \<open>
  The result of an arithmetic operation whose exact value is \<open>x\<close>: \<open>x\<close> rounded to 53
  significant bits, to the nearest value and a tie to the even significand. The unit in
  the last place is \<open>2 ^ e\<close> with \<open>e\<close> not below \<open>-1074\<close>, the exponent of the subnormal
  numbers; a rounded magnitude of \<open>2 ^ 1024\<close> or more is an infinity.
\<close>

definition round64 :: "real \<Rightarrow> float64" where
  "round64 x =
     (if x = 0 then Finite 0
      else let e = max (floor_log2 \<bar>x\<bar> - 52) (- 1074);
               m = round_half_even (\<bar>x\<bar> / 2 powi e)
           in if of_int m * 2 powi e \<ge> (2 :: real) ^ 1024 then (if x < 0 then NegInf else PosInf)
              else Finite (sgn x * of_int m * 2 powi e))"

text \<open>
  A finite value that is a binary64 number: rounding leaves it as it is. The float
  literals and the results of the operations are such values.
\<close>

fun is_double :: "float64 \<Rightarrow> bool" where
  "is_double (Finite x) = (round64 x = Finite x)"
| "is_double _ = False"

text \<open>
  \<open>x + y\<close> and \<open>x * y\<close> on floats. NaN propagates, the sum of opposite infinities and
  the product of zero with an infinity are NaN, and no operation raises.
\<close>

fun fadd :: "float64 \<Rightarrow> float64 \<Rightarrow> float64" where
  "fadd (Finite x) (Finite y) = round64 (x + y)"
| "fadd NaN _ = NaN"
| "fadd _ NaN = NaN"
| "fadd PosInf NegInf = NaN"
| "fadd NegInf PosInf = NaN"
| "fadd PosInf _ = PosInf"
| "fadd _ PosInf = PosInf"
| "fadd NegInf _ = NegInf"
| "fadd _ NegInf = NegInf"

fun fmul :: "float64 \<Rightarrow> float64 \<Rightarrow> float64" where
  "fmul (Finite x) (Finite y) = round64 (x * y)"
| "fmul NaN _ = NaN"
| "fmul _ NaN = NaN"
| "fmul (Finite x) PosInf = (if x = 0 then NaN else if 0 < x then PosInf else NegInf)"
| "fmul (Finite x) NegInf = (if x = 0 then NaN else if 0 < x then NegInf else PosInf)"
| "fmul PosInf (Finite y) = (if y = 0 then NaN else if 0 < y then PosInf else NegInf)"
| "fmul NegInf (Finite y) = (if y = 0 then NaN else if 0 < y then NegInf else PosInf)"
| "fmul PosInf PosInf = PosInf"
| "fmul PosInf NegInf = NegInf"
| "fmul NegInf PosInf = NegInf"
| "fmul NegInf NegInf = PosInf"

text \<open>
  The arithmetic of \<open>float\<close> control values with \<open>float\<close> nodes. An integer factor (an
  entry of the matrix, which \<open>np.dot\<close> converts to the type of the control values, or the
  \<open>0\<close> of \<open>0 * coefs[0]\<close>) is converted to a float first.
\<close>

definition float_arith :: "(float64, float64) arith" where
  "float_arith =
     \<lparr>arith_add = fadd,
      arith_scale = (\<lambda>x k. fmul x (round64 (real_of_int k))),
      arith_times = fmul\<rparr>"

section \<open>curve.py: IntegratePlanar.winding\_number\_linear\<close>

text \<open>
  \<open>np.arctan2(y, x)\<close> on real arguments: the angle of the point \<open>(x, y)\<close> in
  \<open>(-pi, pi]\<close>, and \<open>0\<close> at the origin.
\<close>

definition arctan2 :: "real \<Rightarrow> real \<Rightarrow> real" where
  "arctan2 y x =
     (if 0 < x then arctan (y / x)
      else if x < 0 \<and> 0 \<le> y then arctan (y / x) + pi
      else if x < 0 \<and> y < 0 then arctan (y / x) - pi
      else if 0 < y then pi / 2
      else if y < 0 then - pi / 2
      else 0)"

text \<open>\<open>IntegratePlanar.winding_number_linear(pointa, pointb)\<close>; \<open>math.tau\<close> is \<open>2 * pi\<close>.\<close>

definition winding_number_linear :: "point \<Rightarrow> point \<Rightarrow> real" where
  "winding_number_linear pointa pointb =
     (let anglea = arctan2 (snd pointa) (fst pointa);
          angleb = arctan2 (snd pointb) (fst pointb);
          wind = (angleb - anglea) / (2 * pi)
      in if \<bar>wind\<bar> < 1 / 2 then wind
         else if wind > 0 then wind - 1 else wind + 1)"

section \<open>jordancurve.py: IntersectionBeziers\<close>

text \<open>
  The class constants \<open>tol_du = 1e-9\<close> and \<open>tol_norm = 1e-9\<close>. The third constant,
  \<open>max_denom\<close>, is only passed to \<open>Fraction.limit_denominator\<close>, which is a function of
  the standard library: the rounding \<open>ui.limit_denominator(max_denom)\<close> (the identity on
  a float) enters the model as the parameter \<open>limd\<close>. The comparison of two points,
  \<open>Point2D.__ne__\<close>, belongs to the missing \<open>polygon.py\<close> and enters as the parameter
  \<open>peq\<close>.
\<close>

definition tol_du :: real where "tol_du = 1 / 10 ^ 9"
definition tol_norm :: real where "tol_norm = 1 / 10 ^ 9"

text \<open>\<open>is_equal_controlpoints\<close>: equal lengths, and no pair of the zip with \<open>pta != ptb\<close>.\<close>

fun is_equal_controlpoints :: "(point \<Rightarrow> point \<Rightarrow> bool) \<Rightarrow> point list \<Rightarrow> point list \<Rightarrow> bool" where
  "is_equal_controlpoints peq cptsa cptsb =
     (if length cptsa \<noteq> length cptsb then False
      else list_all (\<lambda>(pta, ptb). peq pta ptb) (zip cptsa cptsb))"

text \<open>
  \<open>eval_bezier(degree, node)\<close>: the Bernstein values
  \<open>math.comb(degree, i) * (1 - node) ** (degree - i) * node ** i\<close> for \<open>i\<close> in
  \<open>range(degree + 1)\<close>. The degree is \<open>len(cpts) - 1\<close>, an integer that is \<open>-1\<close> for an
  empty tuple, where the range is empty.
\<close>

definition eval_bezier :: "int \<Rightarrow> real \<Rightarrow> real list" where
  "eval_bezier degree node =
     (let comp = 1 - node
      in map (\<lambda>i. real (nat degree choose i) * comp ^ (nat degree - i) * node ^ i)
           [0..<nat (degree + 1)])"

text \<open>
  \<open>matrix_derivate(degree)\<close>: a zero matrix with \<open>M[i, i + 1] = degree - i\<close> and
  \<open>M[i + 1, i] = -(i + 1)\<close> for \<open>i\<close> in \<open>range(degree)\<close>, then the diagonal
  \<open>M[i, i] = 2 * i - degree\<close>.
\<close>

definition matrix_derivate :: "int \<Rightarrow> int list list" where
  "matrix_derivate degree =
     map (\<lambda>i. map (\<lambda>j.
            if j = i then 2 * int i - degree
            else if j = i + 1 \<and> int i < degree then degree - int i
            else if i = j + 1 \<and> int j < degree then - (int j + 1)
            else 0) [0..<nat (degree + 1)]) [0..<nat (degree + 1)]"

text \<open>
  \<open>dmat @ cpts\<close>: an integer matrix times a vector of points. Then the bilinear forms
  \<open>aui @ np.tensordot(ps, qs, axes=0) @ bvj\<close>, the sum over \<open>i\<close> and \<open>j\<close> of
  \<open>aui[i] * (ps[i] * qs[j]) * bvj[j]\<close>, where the product of two points is their inner
  product.
\<close>

definition matmul_points :: "int list list \<Rightarrow> point list \<Rightarrow> point list" where
  "matmul_points m pts =
     map (\<lambda>row. foldl padd (0, 0) (map (\<lambda>(c, p). pscale (real_of_int c) p) (zip row pts))) m"

definition form :: "real list \<Rightarrow> point list \<Rightarrow> point list \<Rightarrow> real list \<Rightarrow> real" where
  "form a ps qs b =
     sum_list (map (\<lambda>i. sum_list (map (\<lambda>j. a ! i * inner (ps ! i) (qs ! j) * b ! j)
                                      [0..<length qs])) [0..<length ps])"

text \<open>\<open>min(1, max(0, x))\<close>.\<close>

definition clamp01 :: "real \<Rightarrow> real" where
  "clamp01 x = min 1 (max 0 x)"

text \<open>
  One pass through the body of the Newton loop, from \<open>(ui, vj)\<close>: \<open>None\<close> when
  \<open>denom == 0\<close> (the code sets both parameters to infinity and leaves the loop),
  otherwise the updated, rounded and clamped pair.
\<close>

definition newton_step ::
  "(real \<Rightarrow> real) \<Rightarrow> point list \<Rightarrow> point list \<Rightarrow> real \<Rightarrow> real \<Rightarrow> (real \<times> real) option" where
  "newton_step limd cptsa cptsb ui vj =
     (let dega = int (length cptsa) - 1; degb = int (length cptsb) - 1;
          dcptsa = matmul_points (matrix_derivate dega) cptsa;
          ddcptsa = matmul_points (matrix_derivate dega) dcptsa;
          dcptsb = matmul_points (matrix_derivate degb) cptsb;
          ddcptsb = matmul_points (matrix_derivate degb) dcptsb;
          aui = eval_bezier dega ui;
          bvj = eval_bezier degb vj;
          ada = form aui cptsa dcptsa aui;
          adb = form aui cptsa dcptsb bvj;
          bda = form bvj cptsb dcptsa aui;
          bdb = form bvj cptsb dcptsb bvj;
          adda = form aui cptsa ddcptsa aui;
          addb = form aui cptsa ddcptsb bvj;
          bdda = form bvj cptsb ddcptsa aui;
          bddb = form bvj cptsb ddcptsb bvj;
          dada = form aui dcptsa dcptsa aui;
          dadb = form aui dcptsa dcptsb bvj;
          dbdb = form bvj dcptsb dcptsb bvj;
          mat00 = dbdb + bddb - addb;
          mat11 = dada + adda - bdda;
          vec0 = ada - bda;
          vec1 = bdb - adb;
          denom = mat00 * mat11 - dadb ^ 2
      in if denom = 0 then None
         else Some (clamp01 (limd (ui - (mat00 * vec0 + dadb * vec1) / denom)),
                    clamp01 (limd (vj - (dadb * vec0 + mat11 * vec1) / denom))))"

text \<open>
  The loop \<open>for k in range(10)\<close>, by the number of passes that are left: the list of
  what each executed pass produced. A pass that moved \<open>ui\<close> or \<open>vj\<close> by more than
  \<open>tol_du\<close> continues with the next pass; otherwise the loop breaks.
\<close>

fun newton_trace ::
  "(real \<Rightarrow> real) \<Rightarrow> point list \<Rightarrow> point list \<Rightarrow> nat \<Rightarrow> real \<Rightarrow> real \<Rightarrow> (real \<times> real) option list" where
  "newton_trace limd cptsa cptsb 0 ui vj = []"
| "newton_trace limd cptsa cptsb (Suc k) ui vj =
     (case newton_step limd cptsa cptsb ui vj of
        None \<Rightarrow> [None]
      | Some (ui', vj') \<Rightarrow>
          Some (ui', vj') #
          (if \<bar>ui - ui'\<bar> > tol_du then newton_trace limd cptsa cptsb k ui' vj'
           else if \<bar>vj - vj'\<bar> > tol_du then newton_trace limd cptsa cptsb k ui' vj'
           else []))"

text \<open>
  The starting pairs \<open>(usample[i], vsample[j])\<close> in the order of the two nested loops over
  \<open>range(nptas + 1)\<close> and \<open>range(nptbs + 1)\<close>. Both sample lists divide by \<open>nptbs\<close>, as
  the source does.
\<close>

definition seeds :: "point list \<Rightarrow> point list \<Rightarrow> (real \<times> real) list" where
  "seeds cptsa cptsb =
     (let nptas = int (length cptsa) - 1 + 3; nptbs = int (length cptsb) - 1 + 3;
          usample = map (\<lambda>i. real i / real_of_int nptbs) [0..<nat (nptas + 1)];
          vsample = map (\<lambda>i. real i / real_of_int nptbs) [0..<nat (nptbs + 1)]
      in concat (map (\<lambda>i. map (\<lambda>j. (usample ! i, vsample ! j)) [0..<nat (nptbs + 1)])
                   [0..<nat (nptas + 1)]))"

text \<open>
  The Newton iteration that the body of the two nested loops runs from one starting pair:
  \<open>ui = usample[i]\<close>, \<open>vj = vsample[j]\<close>, then \<open>for k in range(10)\<close>. The result is the
  list of the passes executed for that pair.
\<close>

definition seed_trace ::
  "(real \<Rightarrow> real) \<Rightarrow> point list \<Rightarrow> point list \<Rightarrow> real \<times> real \<Rightarrow> (real \<times> real) option list" where
  "seed_trace limd cptsa cptsb seed = newton_trace limd cptsa cptsb 10 (fst seed) (snd seed)"

text \<open>
  What one starting pair contributes: the values of \<open>ui, vj\<close> after the loop are those
  of the last executed pass; infinite or out-of-range values are skipped.
\<close>

definition seed_result ::
  "(real \<Rightarrow> real) \<Rightarrow> point list \<Rightarrow> point list \<Rightarrow> real \<times> real \<Rightarrow> (real \<times> real) option" where
  "seed_result limd cptsa cptsb seed =
     (case last (seed_trace limd cptsa cptsb seed) of
        None \<Rightarrow> None
      | Some (ui, vj) \<Rightarrow> if ui < 0 \<or> 1 < ui \<or> vj < 0 \<or> 1 < vj then None else Some (ui, vj))"

text \<open>The set \<open>intersections\<close>, as the list of its elements in the order of insertion.\<close>

definition intersections :: "(real \<Rightarrow> real) \<Rightarrow> point list \<Rightarrow> point list \<Rightarrow> (real \<times> real) list" where
  "intersections limd cptsa cptsb = remdups (List.map_filter (seed_result limd cptsa cptsb) (seeds cptsa cptsb))"

text \<open>
  The second loop keeps a pair unless a pair kept before agrees with it within \<open>tol_du\<close>
  in both parameters.
\<close>

definition close_pair :: "real \<times> real \<Rightarrow> real \<times> real \<Rightarrow> bool" where
  "close_pair p q = (\<bar>fst p - fst q\<bar> < tol_du \<and> \<bar>snd p - snd q\<bar> < tol_du)"

fun filter_close :: "(real \<times> real) list \<Rightarrow> (real \<times> real) list \<Rightarrow> (real \<times> real) list" where
  "filter_close filter_inters [] = filter_inters"
| "filter_close filter_inters (p # rest) =
     (if list_ex (close_pair p) filter_inters then filter_close filter_inters rest
      else filter_close (filter_inters @ [p]) rest)"

text \<open>\<open>eval_bezier(deg, node) @ cpts\<close>, and the residual \<open>abs(pta - ptb)\<close> of a pair.\<close>

definition curve_point :: "point list \<Rightarrow> real \<Rightarrow> point" where
  "curve_point cpts node =
     foldl padd (0, 0)
       (map (\<lambda>(c, p). pscale c p) (zip (eval_bezier (int (length cpts) - 1) node) cpts))"

definition residual :: "point list \<Rightarrow> point list \<Rightarrow> real \<times> real \<Rightarrow> real" where
  "residual cptsa cptsb p = pabs (psub (curve_point cptsa (fst p)) (curve_point cptsb (snd p)))"

text \<open>
  \<open>intersection_bezier(cptsa, cptsb)\<close>. Identical control points give the single pair
  \<open>(None, None)\<close>. Otherwise the candidates are enumerated (\<open>enum\<close> is the iteration
  order of the Python set), filtered for closeness, and the pairs with a residual above
  \<open>tol_norm\<close> are removed.
\<close>

definition intersection_bezier ::
  "(point \<Rightarrow> point \<Rightarrow> bool) \<Rightarrow> (real \<Rightarrow> real) \<Rightarrow> ((real \<times> real) list \<Rightarrow> (real \<times> real) list)
   \<Rightarrow> point list \<Rightarrow> point list \<Rightarrow> (real option \<times> real option) list" where
  "intersection_bezier peq limd enum cptsa cptsb =
     (if is_equal_controlpoints peq cptsa cptsb then [(None, None)]
      else map (\<lambda>(ui, vj). (Some ui, Some vj))
             (filter (\<lambda>p. \<not> residual cptsa cptsb p > tol_norm)
                (filter_close [] (enum (intersections limd cptsa cptsb)))))"

text \<open>A list of pairs without repetition in which no two different pairs are close.\<close>

definition separated :: "(real \<times> real) list \<Rightarrow> bool" where
  "separated ps = (distinct ps \<and> (\<forall>p \<in> set ps. \<forall>q \<in> set ps. p \<noteq> q \<longrightarrow> \<not> close_pair p q))"

section \<open>jordancurve.py: the state of a JordanCurve\<close>

text \<open>
  A \<open>PlanarCurve\<close> is given by its tuple of control points. A \<open>JordanCurve\<close> object holds
  the tuple \<open>__segments\<close> and the two caches \<open>__lenght\<close> and \<open>__vertices\<close>, which are
  \<open>None\<close> until the properties \<open>lenght\<close> and \<open>vertices\<close> fill them.
\<close>

type_synonym curve = "point list"

record JordanCurve =
  segments :: "curve list"
  lenght_cache :: "real option"
  vertices_cache :: "point list option"

section \<open>shape.py: FollowPath.pursue\_path\<close>

text \<open>Python indexing \<open>xs[i]\<close>: a negative index counts from the end.\<close>

definition py_index :: "'a list \<Rightarrow> int \<Rightarrow> error + 'a" where
  "py_index xs i =
     (let n = int (length xs); k = (if i < 0 then n + i else i)
      in if 0 \<le> k \<and> k < n then Inr (xs ! nat k) else Inl IndexError)"

text \<open>
  The loop \<open>for i, jordan in enumerate(jordans)\<close>: the first index other than
  \<open>index_jordan\<close> whose curve contains \<open>last_point\<close>, or \<open>None\<close> when the loop ends
  without \<open>break\<close>. The test \<open>last_point in jordan\<close> (\<open>JordanCurve.__contains__\<close>) rests
  on the missing classes \<open>Box\<close> and \<open>Point2D\<close> and on a numerical projection; it enters
  as the parameter \<open>in_jordan\<close>, any predicate. An exception raised inside the test is
  not modelled.
\<close>

definition find_jordan ::
  "(point \<Rightarrow> JordanCurve \<Rightarrow> bool) \<Rightarrow> JordanCurve list \<Rightarrow> int \<Rightarrow> point \<Rightarrow> nat option" where
  "find_jordan in_jordan jordans index_jordan last_point =
     List.find (\<lambda>i. int i \<noteq> index_jordan \<and> in_jordan last_point (jordans ! i)) [0..<length jordans]"

text \<open>
  The loop \<open>for j, segj in enumerate(all_segments[index_jordan])\<close>: the first segment
  whose first control point equals \<open>last_point\<close> (\<open>Point2D.__eq__\<close>, the parameter
  \<open>peq\<close>). A segment without control points raises at \<open>ctrlpoints[0]\<close>.
\<close>

fun find_start :: "(point \<Rightarrow> point \<Rightarrow> bool) \<Rightarrow> point \<Rightarrow> nat \<Rightarrow> curve list \<Rightarrow> error + nat option" where
  "find_start peq last_point j [] = Inr None"
| "find_start peq last_point j (segj # rest) =
     (case segj of
        [] \<Rightarrow> Inl IndexError
      | p # _ \<Rightarrow> if peq p last_point then Inr (Some j) else find_start peq last_point (Suc j) rest)"

text \<open>
  One pass through the body of \<open>while True\<close>, on the state \<open>(index_jordan,
  index_segment, matrix)\<close>: an exception, the returned matrix (\<open>break\<close>), or the state
  for the next pass. \<open>index_segment %= 0\<close> raises \<open>ZeroDivisionError\<close>.
\<close>

type_synonym path_state = "int \<times> int \<times> (int \<times> int) list"

definition pursue_step ::
  "(point \<Rightarrow> JordanCurve \<Rightarrow> bool) \<Rightarrow> (point \<Rightarrow> point \<Rightarrow> bool) \<Rightarrow> JordanCurve list
   \<Rightarrow> path_state \<Rightarrow> error + ((int \<times> int) list + path_state)" where
  "pursue_step in_jordan peq jordans st =
     (case st of (index_jordan, index_segment, matrix) \<Rightarrow>
        (case py_index (map segments jordans) index_jordan of
           Inl e \<Rightarrow> Inl e
         | Inr segs \<Rightarrow>
             (if segs = [] then Inl ZeroDivisionError
              else (let index_segment = index_segment mod int (length segs);
                        segment = segs ! nat index_segment
                    in (if (index_jordan, index_segment) \<in> set matrix then Inr (Inl matrix)
                        else (let matrix = matrix @ [(index_jordan, index_segment)]
                              in (case py_index segment (- 1) of
                                    Inl e \<Rightarrow> Inl e
                                  | Inr last_point \<Rightarrow>
                                      (case find_jordan in_jordan jordans index_jordan last_point of
                                         None \<Rightarrow> Inr (Inr (index_jordan, index_segment + 1, matrix))
                                       | Some i \<Rightarrow>
                                           (case find_start peq last_point 0 (segments (jordans ! i)) of
                                              Inl e \<Rightarrow> Inl e
                                            | Inr None \<Rightarrow> Inr (Inr (int i, index_segment, matrix))
                                            | Inr (Some j) \<Rightarrow> Inr (Inr (int i, int j, matrix)))))))))))"

text \<open>The loop itself; \<open>None\<close> stands for a loop that runs forever.\<close>

partial_function (option) pursue_loop ::
  "(point \<Rightarrow> JordanCurve \<Rightarrow> bool) \<Rightarrow> (point \<Rightarrow> point \<Rightarrow> bool) \<Rightarrow> JordanCurve list
   \<Rightarrow> path_state \<Rightarrow> (error + (int \<times> int) list) option" where
  "pursue_loop in_jordan peq jordans st =
     (case pursue_step in_jordan peq jordans st of
        Inl e \<Rightarrow> Some (Inl e)
      | Inr (Inl matrix) \<Rightarrow> Some (Inr matrix)
      | Inr (Inr st') \<Rightarrow> pursue_loop in_jordan peq jordans st')"

definition pursue_path ::
  "(point \<Rightarrow> JordanCurve \<Rightarrow> bool) \<Rightarrow> (point \<Rightarrow> point \<Rightarrow> bool) \<Rightarrow> int \<Rightarrow> int \<Rightarrow> JordanCurve list
   \<Rightarrow> (error + (int \<times> int) list) option" where
  "pursue_path in_jordan peq index_jordan index_segment jordans =
     pursue_loop in_jordan peq jordans (index_jordan, index_segment, [])"

text \<open>The number of segments of all curves together.\<close>

definition total_segments :: "JordanCurve list \<Rightarrow> nat" where
  "total_segments jordans = sum_list (map (\<lambda>jordan. length (segments jordan)) jordans)"

text \<open>
  An example: the triangle \<open>(0, 0), (1, 0), (0, 1)\<close> as a curve of three segments, and the
  membership test that holds for the control points of a curve.
\<close>

definition triangle :: JordanCurve where
  "triangle = \<lparr>segments = [[(0, 0), (1, 0)], [(1, 0), (0, 1)], [(0, 1), (0, 0)]],
               lenght_cache = None, vertices_cache = None\<rparr>"

definition on_vertex :: "point \<Rightarrow> JordanCurve \<Rightarrow> bool" where
  "on_vertex p j = (\<exists>s \<in> set (segments j). p \<in> set s)"

text \<open>
  The pairs \<open>(i, s)\<close> that the loop can append for the curve at Python index \<open>i\<close>, those
  of all curves at their indices from \<open>0\<close>, and the inputs in which every curve has a
  segment and every segment a control point.
\<close>

definition pairs_at :: "JordanCurve list \<Rightarrow> int \<Rightarrow> (int \<times> int) list" where
  "pairs_at jordans i =
     (case py_index (map segments jordans) i of
        Inl _ \<Rightarrow> []
      | Inr segs \<Rightarrow> map (\<lambda>s. (i, int s)) [0..<length segs])"

definition all_pairs :: "JordanCurve list \<Rightarrow> (int \<times> int) list" where
  "all_pairs jordans = concat (map (\<lambda>i. pairs_at jordans (int i)) [0..<length jordans])"

definition well_formed :: "JordanCurve list \<Rightarrow> bool" where
  "well_formed jordans = list_all (\<lambda>jordan. segments jordan \<noteq> [] \<and> list_all (\<lambda>s. s \<noteq> []) (segments jordan)) jordans"

section \<open>Tables of the package \<open>compmec.nurbs\<close>\<close>

text \<open>
  The package \<open>compmec.nurbs\<close> is an external dependency. The model takes what the code
  reads from it as a record of tables: the nodes \<open>NodeSample.open_linspace(n)\<close>, the
  weights \<open>IntegratorArray.open_newton_cotes(n)\<close>, the matrix
  \<open>Calculus.derivate_nonrational_bezier\<close> of a Bezier knot vector of a degree, and the pair
  of matrices \<open>LeastSquare.spline2spline\<close> of the Bezier knot vectors of two degrees.
\<close>

record nurbs =
  open_linspace :: "nat \<Rightarrow> real list"
  open_newton_cotes :: "nat \<Rightarrow> real list"
  derivate_nonrational_bezier :: "nat \<Rightarrow> real list list"
  spline2spline :: "nat \<Rightarrow> nat \<Rightarrow> real list list \<times> real list list"

section \<open>curve.py: Operations.degree\_decrease and clean\<close>

text \<open>
  \<open>np.dot(matrix, points)\<close> for a matrix of numbers and a tuple of points, and
  \<open>np.dot(points, points')\<close> for two tuples of points, where the product of two points is
  their inner product.
\<close>

definition dot_matrix_points :: "real list list \<Rightarrow> point list \<Rightarrow> point list" where
  "dot_matrix_points m pts =
     map (\<lambda>row. foldl padd (0, 0) (map (\<lambda>(c, p). pscale c p) (zip row pts))) m"

definition dot_points_points :: "point list \<Rightarrow> point list \<Rightarrow> real" where
  "dot_points_points ps qs = sum_list (map (\<lambda>(p, q). inner p q) (zip ps qs))"

text \<open>\<open>Operations.degree_decrease(degree, times)\<close> with its three assertions.\<close>

definition degree_decrease :: "nurbs \<Rightarrow> int \<Rightarrow> int \<Rightarrow> error + real list list \<times> real list list" where
  "degree_decrease N degree n_times =
     (if \<not> degree > 0 then Inl AssertionError
      else if \<not> n_times > 0 then Inl AssertionError
      else if \<not> degree - n_times \<ge> 0 then Inl AssertionError
      else Inr (spline2spline N (nat degree) (nat (degree - n_times))))"

text \<open>
  The loop \<open>while degree - times > 1\<close> of \<open>BezierCurve.clean\<close>, from the current value
  of \<open>times\<close> to its final value. The test \<open>tolerance and error > tolerance\<close> is false
  for \<open>tolerance = None\<close> and for a tolerance of zero.
\<close>

function clean_times :: "nurbs \<Rightarrow> real option \<Rightarrow> point list \<Rightarrow> int \<Rightarrow> int \<Rightarrow> error + int" where
  "clean_times N tolerance points degree n_times =
     (if degree - n_times > 1
      then (case degree_decrease N degree (n_times + 1) of
              Inl e \<Rightarrow> Inl e
            | Inr (_, materror) \<Rightarrow>
                (let error = dot_points_points points (dot_matrix_points materror points)
                 in if (case tolerance of None \<Rightarrow> False | Some t \<Rightarrow> t \<noteq> 0 \<and> error > t)
                    then Inr n_times
                    else clean_times N tolerance points degree (n_times + 1)))
      else Inr n_times)"
  by pat_completeness auto
termination
  by (relation "measure (\<lambda>(N, tolerance, points, degree, n_times). nat (degree - n_times))") auto

text \<open>
  \<open>BezierCurve.clean\<close> returns \<open>None\<close> when \<open>times == 0\<close> and the receiver otherwise;
  \<open>PlanarCurve.clean\<close> always returns its receiver. The second component is the tuple of
  control points of the receiver after the call.
\<close>

datatype returned = ReturnsNone | ReturnsSelf

definition BezierCurve_clean :: "nurbs \<Rightarrow> real option \<Rightarrow> point list \<Rightarrow> error + returned \<times> point list" where
  "BezierCurve_clean N tolerance ctrlpoints =
     (let degree = int (length ctrlpoints) - 1; points = ctrlpoints
      in case clean_times N tolerance points degree 0 of
           Inl e \<Rightarrow> Inl e
         | Inr n_times \<Rightarrow>
             if n_times = 0 then Inr (ReturnsNone, ctrlpoints)
             else (case degree_decrease N degree n_times of
                     Inl e \<Rightarrow> Inl e
                   | Inr (mattrans, _) \<Rightarrow> Inr (ReturnsSelf, dot_matrix_points mattrans points)))"

definition PlanarCurve_clean :: "nurbs \<Rightarrow> real option \<Rightarrow> point list \<Rightarrow> error + returned \<times> point list" where
  "PlanarCurve_clean N tolerance ctrlpoints =
     (case BezierCurve_clean N tolerance ctrlpoints of
        Inl e \<Rightarrow> Inl e
      | Inr (_, ctrlpoints') \<Rightarrow> Inr (ReturnsSelf, ctrlpoints'))"

text \<open>
  A sample of tables for evaluating the model on examples: midpoint nodes with equal
  weights, the derivative matrix of \<open>Q\<^sub>i = p (P\<^sub>i\<^sub>+\<^sub>1 - P\<^sub>i)\<close>, and a degree reduction from three
  control points to the two end points with the zero error matrix.
\<close>

definition sample_tables :: nurbs where
  "sample_tables =
     \<lparr>open_linspace = (\<lambda>n. map (\<lambda>i. (2 * real i + 1) / (2 * real n)) [0..<n]),
      open_newton_cotes = (\<lambda>n. replicate n (1 / real n)),
      derivate_nonrational_bezier =
        (\<lambda>p. map (\<lambda>i. map (\<lambda>j. if j = i + 1 then real p else if j = i then - real p else 0) [0..<p + 1])
                 [0..<p]),
      spline2spline = (\<lambda>p q. ([[1, 0, 0], [0, 0, 1]], [[0, 0, 0], [0, 0, 0], [0, 0, 0]]))\<rparr>"

section \<open>curve.py: PlanarCurve.derivate and IntegratePlanar\<close>

text \<open>
  The constructor \<open>PlanarCurve(ctrlpoints)\<close> refuses a degree above 2.
  \<open>Derivate.non_rational_bezier(degree, 1)\<close> is a row of zeros for degree 0 and the
  external matrix otherwise; \<open>derivate()\<close> applies it to the control points.
\<close>

definition PlanarCurve_new :: "point list \<Rightarrow> error + curve" where
  "PlanarCurve_new ctrlpoints =
     (if int (length ctrlpoints) - 1 > 2 then Inl NotImplementedError else Inr ctrlpoints)"

definition non_rational_bezier :: "nurbs \<Rightarrow> int \<Rightarrow> error + real list list" where
  "non_rational_bezier N degree =
     (if \<not> degree \<ge> 0 then Inl AssertionError
      else if degree - 1 < 0 then Inr [replicate (nat (degree + 1)) 0]
      else Inr (derivate_nonrational_bezier N (nat degree)))"

definition derivate :: "nurbs \<Rightarrow> curve \<Rightarrow> error + curve" where
  "derivate N ctrlpoints =
     (case non_rational_bezier N (int (length ctrlpoints) - 1) of
        Inl e \<Rightarrow> Inl e
      | Inr matrix \<Rightarrow> PlanarCurve_new (dot_matrix_points matrix ctrlpoints))"

text \<open>
  \<open>IntegratePlanar.polynomial\<close> and \<open>IntegratePlanar.vertical\<close>, with \<open>nnodes = None\<close>
  replaced by \<open>3 + expx + expy + degree\<close>, and their assertions. \<open>lenght\<close> and \<open>area\<close>
  are the instances \<open>polynomial(curve, 0, 0, nnodes)\<close> and \<open>vertical(curve, 1, 0, nnodes)\<close>.
\<close>

definition np_inner :: "real list \<Rightarrow> real list \<Rightarrow> real" where
  "np_inner poids funcvals = sum_list (map (\<lambda>(w, f). w * f) (zip poids funcvals))"

definition polynomial :: "nurbs \<Rightarrow> curve \<Rightarrow> int \<Rightarrow> int \<Rightarrow> int option \<Rightarrow> error + real" where
  "polynomial N curve expx expy nnodes =
     (let nnodes = (case nnodes of None \<Rightarrow> 3 + expx + expy + (int (length curve) - 1) | Some n \<Rightarrow> n)
      in if \<not> nnodes \<ge> 0 \<or> \<not> expx = 0 \<or> \<not> expy = 0 then Inl AssertionError
         else (case derivate N curve of
                 Inl e \<Rightarrow> Inl e
               | Inr dcurve \<Rightarrow>
                   (let nodes = open_linspace N (nat nnodes);
                        poids = open_newton_cotes N (nat nnodes)
                    in (case eval point_arith dcurve nodes of
                          Inl e \<Rightarrow> Inl e
                        | Inr dpoints \<Rightarrow> Inr (np_inner poids (map pabs dpoints))))))"

definition vertical :: "nurbs \<Rightarrow> curve \<Rightarrow> int \<Rightarrow> int \<Rightarrow> int option \<Rightarrow> error + real" where
  "vertical N curve expx expy nnodes =
     (let nnodes = (case nnodes of None \<Rightarrow> 3 + expx + expy + (int (length curve) - 1) | Some n \<Rightarrow> n)
      in if \<not> nnodes \<ge> 0 \<or> \<not> expx \<ge> 0 \<or> \<not> expy \<ge> 0 then Inl AssertionError
         else (case derivate N curve of
                 Inl e \<Rightarrow> Inl e
               | Inr dcurve \<Rightarrow>
                   (let nodes = open_linspace N (nat nnodes);
                        poids = open_newton_cotes N (nat nnodes)
                    in (case eval point_arith curve nodes of
                          Inl e \<Rightarrow> Inl e
                        | Inr points \<Rightarrow>
                            (case eval point_arith dcurve nodes of
                               Inl e \<Rightarrow> Inl e
                             | Inr dpoints \<Rightarrow>
                                 Inr (np_inner poids
                                       (map (\<lambda>(p, d). fst p ^ nat expx * snd p ^ nat expy * snd d)
                                          (zip points dpoints))))))))"

definition IntegratePlanar_lenght :: "nurbs \<Rightarrow> curve \<Rightarrow> int option \<Rightarrow> error + real" where
  "IntegratePlanar_lenght N curve nnodes = polynomial N curve 0 0 nnodes"

definition IntegratePlanar_area :: "nurbs \<Rightarrow> curve \<Rightarrow> int option \<Rightarrow> error + real" where
  "IntegratePlanar_area N curve nnodes = vertical N curve 1 0 nnodes"

section \<open>jordancurve.py: IntegrateJordan and JordanCurve\<close>

text \<open>The loops \<open>total += ...\<close> over the segments; the first exception ends the loop.\<close>

fun total_of :: "real \<Rightarrow> (error + real) list \<Rightarrow> error + real" where
  "total_of subtotal [] = Inr subtotal"
| "total_of subtotal (Inl e # _) = Inl e"
| "total_of subtotal (Inr x # rest) = total_of (subtotal + x) rest"

definition IntegrateJordan_lenght :: "nurbs \<Rightarrow> JordanCurve \<Rightarrow> int option \<Rightarrow> error + real" where
  "IntegrateJordan_lenght N jordan nnodes =
     total_of 0 (map (\<lambda>bezier. IntegratePlanar_lenght N bezier nnodes) (segments jordan))"

definition IntegrateJordan_area :: "nurbs \<Rightarrow> JordanCurve \<Rightarrow> int option \<Rightarrow> error + real" where
  "IntegrateJordan_area N jordan nnodes =
     total_of 0 (map (\<lambda>bezier. IntegratePlanar_area N bezier nnodes) (segments jordan))"

text \<open>
  The property \<open>lenght\<close>: the cached value if there is one; otherwise the arc length,
  negated unless the area is positive, which is stored in the cache and returned. The
  result is the value and the state of the object after the read.
\<close>

definition lenght :: "nurbs \<Rightarrow> JordanCurve \<Rightarrow> error + real \<times> JordanCurve" where
  "lenght N self =
     (case lenght_cache self of
        Some cached \<Rightarrow> Inr (cached, self)
      | None \<Rightarrow>
          (case IntegrateJordan_lenght N self None of
             Inl e \<Rightarrow> Inl e
           | Inr lenght \<Rightarrow>
               (case IntegrateJordan_area N self None of
                  Inl e \<Rightarrow> Inl e
                | Inr area \<Rightarrow>
                    (let signed = (if area > 0 then lenght else - lenght)
                     in Inr (signed, self\<lparr>lenght_cache := Some signed\<rparr>)))))"

text \<open>
  The property \<open>vertices\<close>: the control points of all segments in order, without those
  equal to an earlier one (\<open>point not in vertices\<close>), cached.
\<close>

definition vertices :: "(point \<Rightarrow> point \<Rightarrow> bool) \<Rightarrow> JordanCurve \<Rightarrow> point list \<times> JordanCurve" where
  "vertices peq self =
     (case vertices_cache self of
        Some cached \<Rightarrow> (cached, self)
      | None \<Rightarrow>
          (let found = foldl (\<lambda>vs p. if list_ex (\<lambda>v. peq v p) vs then vs else vs @ [p]) []
                         (concat (segments self))
           in (found, self\<lparr>vertices_cache := Some found\<rparr>)))"

text \<open>
  Modelled from the spec: \<open>Point2D.scale\<close> and \<open>Point2D.move\<close> are in the missing
  \<open>polygon.py\<close>; they scale the coordinates and add a vector, in place. \<open>scale\<close> and
  \<open>move\<close> of a curve call them on every object of \<open>self.vertices\<close>. The point objects
  are shared between the vertex tuple and the segments, so in the model every control
  point is transformed, and the vertex cache holds the transformed points. Neither
  method assigns \<open>__lenght\<close>.
\<close>

definition point_scale :: "real \<Rightarrow> real \<Rightarrow> point \<Rightarrow> point" where
  "point_scale xscale yscale p = (xscale * fst p, yscale * snd p)"

definition point_move :: "point \<Rightarrow> point \<Rightarrow> point" where
  "point_move vector p = padd p vector"

definition transform_vertices :: "(point \<Rightarrow> point \<Rightarrow> bool) \<Rightarrow> (point \<Rightarrow> point) \<Rightarrow> JordanCurve \<Rightarrow> JordanCurve" where
  "transform_vertices peq f self =
     (case vertices peq self of
        (vs, self) \<Rightarrow> self\<lparr>segments := map (map f) (segments self),
                              vertices_cache := Some (map f vs)\<rparr>)"

definition scale :: "(point \<Rightarrow> point \<Rightarrow> bool) \<Rightarrow> real \<Rightarrow> real \<Rightarrow> JordanCurve \<Rightarrow> JordanCurve" where
  "scale peq xscale yscale self = transform_vertices peq (point_scale xscale yscale) self"

definition move :: "(point \<Rightarrow> point \<Rightarrow> bool) \<Rightarrow> point \<Rightarrow> JordanCurve \<Rightarrow> JordanCurve" where
  "move peq vector self = transform_vertices peq (point_move vector) self"






text \<open>
  Examples: the square with corners \<open>(0, 0)\<close> and \<open>(a, a)\<close>, counter-clockwise, and a
  curve object with empty caches.
\<close>

definition square :: "real \<Rightarrow> curve list" where
  "square a = [[(0, 0), (a, 0)], [(a, 0), (a, a)], [(a, a), (0, a)], [(0, a), (0, 0)]]"

definition fresh :: "curve list \<Rightarrow> JordanCurve" where
  "fresh segs = \<lparr>segments = segs, lenght_cache = None, vertices_cache = None\<rparr>"

section \<open>shape.py: the shapes\<close>














text \<open>
  An instance of the boundary operations for examples: a boundary is a list of
  segments, and the operations are those of a \<open>JordanCurve\<close> with empty caches and the
  sample tables. Where the curve operation raises, the instance has a fixed value; the
  examples below are polygons, on which it does not raise. The containment test and the
  path follower are placeholders, which the examples do not reach.
\<close>

definition curve_float :: "nurbs \<Rightarrow> curve list \<Rightarrow> real" where
  "curve_float N segs = (case lenght N (fresh segs) of Inl _ \<Rightarrow> 0 | Inr (l, _) \<Rightarrow> l)"






section \<open>Properties of Bezier evaluation\<close>

lemma bezier_caract_matrix_1: "bezier_caract_matrix (Suc 0) = [[- 1, 1], [1, 0]]"
  by (simp add: bezier_caract_matrix_def comb_def upt_rec upto.simps)

lemma bezier_caract_matrix_2:
  "bezier_caract_matrix (Suc (Suc 0)) = [[1, - 2, 1], [- 2, 2, 0], [1, 0, 0]]"
  by (simp add: bezier_caract_matrix_def comb_def upt_rec upto.simps)







subsection \<open>Rounding to binary64\<close>






lemmas round64_eval = round64_def floor_log2_def round_half_even_def Let_def compute_bitlen


lemma round64_one: "round64 1 = Finite 1"
  by (simp add: round64_eval)






















subsection \<open>End points\<close>


text \<open>
  The same happens at ordinary magnitudes: for the binary64 numbers nearest to \<open>0.1\<close>,
  \<open>0.2\<close> and \<open>0.3\<close> the evaluation at parameter 1 returns the binary64 number just
  below the last control value.
\<close>

lemma eval_float_tenths:
  "list_all is_double
     [Finite (3602879701896397 / 2 ^ 55), Finite (3602879701896397 / 2 ^ 54),
      Finite (5404319552844595 / 2 ^ 54)]
   \<and> eval float_arith
         [Finite (3602879701896397 / 2 ^ 55), Finite (3602879701896397 / 2 ^ 54),
          Finite (5404319552844595 / 2 ^ 54)] [Finite 1]
       = Inr [Finite (5404319552844594 / 2 ^ 54)]"
  by (simp add: eval_def horner_method_def Let_def dot_points_matrix_def bezier_caract_matrix_2
      numeral_2_eq_2 upt_rec float_arith_def round64_eval)



section \<open>Properties of the linear winding number\<close>

lemma arctan2_bounds: "- pi < arctan2 y x \<and> arctan2 y x \<le> pi"
proof -
  have lo: "- (pi / 2) < arctan (y / x)"
    by (rule arctan_lbound)
  have hi: "arctan (y / x) < pi / 2"
    by (rule arctan_ubound)
  have p: "0 < pi"
    by (rule pi_gt_zero)
  consider (right) "0 < x" | (upper) "x < 0" "0 \<le> y" | (lower) "x < 0" "y < 0" | (axis) "x = 0"
    by linarith
  then show ?thesis
  proof cases
    case right
    then have "arctan2 y x = arctan (y / x)"
      by (simp add: arctan2_def)
    with lo hi p show ?thesis by linarith
  next
    case upper
    then have "y / x \<le> 0"
      by (simp add: divide_nonneg_neg)
    then have neg: "arctan (y / x) \<le> 0"
      by (simp add: arctan_le_zero_iff)
    from upper have "arctan2 y x = arctan (y / x) + pi"
      by (simp add: arctan2_def)
    with lo neg p show ?thesis by linarith
  next
    case lower
    then have "0 < y / x"
      by (simp add: divide_neg_neg)
    then have pos: "0 < arctan (y / x)"
      by (simp add: zero_less_arctan_iff)
    from lower have "arctan2 y x = arctan (y / x) - pi"
      by (simp add: arctan2_def)
    with hi pos p show ?thesis by linarith
  next
    case axis
    then have "arctan2 y x = pi / 2 \<or> arctan2 y x = - pi / 2 \<or> arctan2 y x = 0"
      by (simp add: arctan2_def)
    with p show ?thesis by linarith
  qed
qed

lemma raw_winding_bounds:
  "- 1 < (arctan2 yb xb - arctan2 ya xa) / (2 * pi)
   \<and> (arctan2 yb xb - arctan2 ya xa) / (2 * pi) < 1"
proof -
  have p: "0 < pi"
    by (rule pi_gt_zero)
  have "- (2 * pi) < arctan2 yb xb - arctan2 ya xa" "arctan2 yb xb - arctan2 ya xa < 2 * pi"
    using arctan2_bounds [of ya xa] arctan2_bounds [of yb xb] by linarith+
  with p show ?thesis
    by (simp add: field_simps)
qed

text \<open>
  C5, as stated, fails: from \<open>(1, 0)\<close> to \<open>(-1, 0)\<close> the angles are \<open>0\<close> and \<open>pi\<close>, the
  raw quotient is exactly one half, and the function returns \<open>-1/2\<close>, which is not
  strictly above \<open>-1/2\<close>.
\<close>

theorem winding_number_linear_half_turn: "\<not> (- 1 / 2 < winding_number_linear (1, 0) (- 1, 0))"
  by (simp add: winding_number_linear_def arctan2_def Let_def)

text \<open>
  C5, amended: the result of \<open>winding_number_linear\<close> differs from the subtended angle
  quotient \<open>(\<theta>\<^sub>b - \<theta>\<^sub>a) / (2 pi)\<close> by \<open>0\<close>, \<open>-1\<close> or \<open>+1\<close>, and it lies in the closed
  interval from \<open>-1/2\<close> to \<open>1/2\<close>.
\<close>

theorem winding_number_linear_wrapped:
  "(winding_number_linear a b = (arctan2 (snd b) (fst b) - arctan2 (snd a) (fst a)) / (2 * pi)
    \<or> winding_number_linear a b = (arctan2 (snd b) (fst b) - arctan2 (snd a) (fst a)) / (2 * pi) - 1
    \<or> winding_number_linear a b = (arctan2 (snd b) (fst b) - arctan2 (snd a) (fst a)) / (2 * pi) + 1)
   \<and> - 1 / 2 \<le> winding_number_linear a b \<and> winding_number_linear a b \<le> 1 / 2"
proof -
  define w where "w = (arctan2 (snd b) (fst b) - arctan2 (snd a) (fst a)) / (2 * pi)"
  have "- 1 < w" "w < 1"
    using raw_winding_bounds [of "snd b" "fst b" "snd a" "fst a"] by (simp_all add: w_def)
  then show ?thesis
    unfolding winding_number_linear_def Let_def w_def [symmetric]
    by (auto simp: abs_if split: if_splits)
qed

section \<open>Properties of the intersection search\<close>

lemma clamp01_range: "0 \<le> clamp01 x \<and> clamp01 x \<le> 1"
  by (simp add: clamp01_def)

lemma newton_step_range:
  assumes "newton_step limd cptsa cptsb ui vj = Some (u, v)"
  shows "0 \<le> u \<and> u \<le> 1 \<and> 0 \<le> v \<and> v \<le> 1"
  using assms clamp01_range
  by (auto simp: newton_step_def Let_def split: if_splits)

lemma newton_trace_length: "length (newton_trace limd cptsa cptsb k ui vj) \<le> k"
  by (induction k arbitrary: ui vj) (auto split: option.splits)

lemma newton_trace_range:
  assumes "Some (u, v) \<in> set (newton_trace limd cptsa cptsb k ui vj)"
  shows "0 \<le> u \<and> u \<le> 1 \<and> 0 \<le> v \<and> v \<le> 1"
  using assms
proof (induction k arbitrary: ui vj)
  case 0
  then show ?case by simp
next
  case (Suc k)
  show ?case
  proof (cases "newton_step limd cptsa cptsb ui vj")
    case None
    with Suc.prems show ?thesis by simp
  next
    case (Some q)
    obtain u' v' where q: "q = (u', v')" by (cases q)
    from Some q have r: "0 \<le> u' \<and> u' \<le> 1 \<and> 0 \<le> v' \<and> v' \<le> 1"
      using newton_step_range by blast
    from Suc.prems Some q
    have "(u, v) = (u', v') \<or> Some (u, v) \<in> set (newton_trace limd cptsa cptsb k u' v')"
      by (auto split: if_splits)
    with r Suc.IH show ?thesis by blast
  qed
qed

lemma newton_trace_nonempty: "0 < k \<Longrightarrow> newton_trace limd cptsa cptsb k ui vj \<noteq> []"
  by (cases k) (auto split: option.splits)

lemma seed_result_range:
  assumes "seed_result limd cptsa cptsb seed = Some (u, v)"
  shows "0 \<le> u \<and> u \<le> 1 \<and> 0 \<le> v \<and> v \<le> 1"
  using assms by (auto simp: seed_result_def split: option.splits if_splits)

lemma intersections_range:
  assumes "(u, v) \<in> set (intersections limd cptsa cptsb)"
  shows "0 \<le> u \<and> u \<le> 1 \<and> 0 \<le> v \<and> v \<le> 1"
proof -
  from assms obtain seed where "seed_result limd cptsa cptsb seed = Some (u, v)"
    by (auto simp: intersections_def List.map_filter_def)
  then show ?thesis by (rule seed_result_range)
qed

lemma close_pair_refl: "close_pair p p"
  by (simp add: close_pair_def tol_du_def)

lemma close_pair_sym: "close_pair p q \<Longrightarrow> close_pair q p"
  by (simp add: close_pair_def abs_minus_commute)

lemma separated_snoc:
  assumes "separated acc" and "\<not> list_ex (close_pair p) acc"
  shows "separated (acc @ [p])"
proof -
  from assms(2) have far: "\<forall>q \<in> set acc. \<not> close_pair p q"
    by (simp add: list_ex_iff)
  then have fresh: "p \<notin> set acc"
    using close_pair_refl by blast
  from far have far': "\<forall>q \<in> set acc. \<not> close_pair q p"
    using close_pair_sym by blast
  from assms(1) have d: "distinct acc"
    and s: "\<forall>a \<in> set acc. \<forall>b \<in> set acc. a \<noteq> b \<longrightarrow> \<not> close_pair a b"
    by (simp_all add: separated_def)
  have "distinct (acc @ [p])"
    using d fresh by simp
  moreover have "\<forall>a \<in> set (acc @ [p]). \<forall>b \<in> set (acc @ [p]). a \<noteq> b \<longrightarrow> \<not> close_pair a b"
    using s far far' by auto
  ultimately show ?thesis
    by (simp add: separated_def)
qed

lemma filter_close_separated: "separated acc \<Longrightarrow> separated (filter_close acc ps)"
  by (induction ps arbitrary: acc) (auto intro: separated_snoc)

lemma filter_close_subset: "set (filter_close acc ps) \<subseteq> set acc \<union> set ps"
proof (induction ps arbitrary: acc)
  case Nil
  then show ?case by simp
next
  case (Cons p ps)
  show ?case
  proof (cases "list_ex (close_pair p) acc")
    case True
    then show ?thesis using Cons.IH [of acc] by auto
  next
    case False
    then show ?thesis using Cons.IH [of "acc @ [p]"] by auto
  qed
qed

lemma separated_filter: "separated ps \<Longrightarrow> separated (filter P ps)"
  by (auto simp: separated_def)

lemma matrix_derivate_1: "matrix_derivate 1 = [[-1, 1], [-1, 1]]"
  by (simp add: matrix_derivate_def upt_rec)

lemma eval_bezier_1: "eval_bezier 1 t = [1 - t, t]"
  by (simp add: eval_bezier_def upt_rec)

lemma crossing_step: "newton_step (\<lambda>x. x) [(0, 0), (1, 1)] [(0, 1), (1, 0)] u v = Some (1 / 2, 1 / 2)"
  unfolding newton_step_def Let_def
  apply (simp add: matrix_derivate_1 eval_bezier_1 matmul_points_def form_def inner_def padd_def pscale_def upt_rec clamp01_def)
  apply (simp add: field_simps)?
  done

lemma crossing_trace: "seed_trace (\<lambda>x. x) [(0, 0), (1, 1)] [(0, 1), (1, 0)] s \<noteq> [] \<and>
   last (seed_trace (\<lambda>x. x) [(0, 0), (1, 1)] [(0, 1), (1, 0)] s) = Some (1 / 2, 1 / 2)"
  by (simp add: seed_trace_def eval_nat_numeral crossing_step)

lemma crossing_seed: "seed_result (\<lambda>x. x) [(0, 0), (1, 1)] [(0, 1), (1, 0)] s = Some (1 / 2, 1 / 2)"
  by (simp add: seed_result_def crossing_trace)

lemma length_concat_const:
  "(\<And>x. x \<in> set xs \<Longrightarrow> length (f x) = n) \<Longrightarrow> length (concat (map f xs)) = length xs * n"
  by (induction xs) simp_all

lemma length_seeds: "length (seeds cptsa cptsb) = (length cptsa + 3) * (length cptsb + 3)"
proof -
  have a: "nat (int (length cptsa) - 1 + 3 + 1) = length cptsa + 3"
    by simp
  have b: "nat (int (length cptsb) - 1 + 3 + 1) = length cptsb + 3"
    by simp
  show ?thesis
    unfolding seeds_def Let_def a b
    by (subst length_concat_const [where n = "length cptsb + 3"]) simp_all
qed

lemma crossing_seeds_nonempty: "seeds [(0, 0), (1, 1)] [(0, 1), (1, 0)] \<noteq> []"
  using length_seeds [of "[(0, 0), (1, 1)]" "[(0, 1), (1, 0)]"] by auto

lemma remdups_replicate_Suc: "remdups (replicate (Suc n) a) = [a]"
  by (induction n) simp_all

lemma crossing_intersections: "intersections (\<lambda>x. x) [(0, 0), (1, 1)] [(0, 1), (1, 0)] = [(1 / 2, 1 / 2)]"
proof -
  have "List.map_filter (seed_result (\<lambda>x. x) [(0, 0), (1, 1)] [(0, 1), (1, 0)]) xs = replicate (length xs) (1 / 2, 1 / 2)" for xs
    by (induction xs) (simp_all add: List.map_filter_simps crossing_seed)
  moreover have "xs \<noteq> [] \<Longrightarrow> remdups (replicate (length xs) a) = [a]" for xs :: "(real \<times> real) list" and a :: "real \<times> real"
    using remdups_replicate_Suc [of "length xs - 1" a] by (cases xs) simp_all
  ultimately show ?thesis
    using crossing_seeds_nonempty by (simp add: intersections_def)
qed

lemma crossing_points: "curve_point [(0, 0), (1, 1)] (1 / 2) = (1 / 2, 1 / 2)" "curve_point [(0, 1), (1, 0)] (1 / 2) = (1 / 2, 1 / 2)"
  by (simp_all add: curve_point_def eval_bezier_1 padd_def pscale_def)

lemma crossing_result: "intersection_bezier (=) (\<lambda>x. x) (\<lambda>xs. xs) [(0, 0), (1, 1)] [(0, 1), (1, 0)] = [(Some (1 / 2), Some (1 / 2))]"
  by (simp add: intersection_bezier_def crossing_intersections residual_def crossing_points psub_def pabs_def inner_def tol_norm_def close_pair_def)

lemma seeds_second_range:
  assumes "(u, v) \<in> set (seeds cptsa cptsb)"
  shows "0 \<le> v \<and> v \<le> 1"
proof -
  define n where "n = length cptsb + 2"
  have n: "int (length cptsb) - 1 + 3 = int n" "nat (int n + 1) = Suc n"
    by (simp_all add: n_def)
  from assms obtain j where j: "j < Suc n" and v: "v = map (\<lambda>i. real i / real_of_int (int n)) [0..<Suc n] ! j"
    unfolding seeds_def Let_def n by (auto simp del: upt_Suc)
  from j have "v = real j / real n"
    unfolding v by (simp del: upt_Suc)
  moreover have "0 < n"
    by (simp add: n_def)
  ultimately show ?thesis
    using j by simp
qed

text \<open>
  C3: when the two control point tuples are not identical, every pair \<open>(u, v)\<close> returned by
  \<open>intersection_bezier\<close> has both parameters in \<open>[0, 1]\<close> and a residual
  \<open>|A(u) - B(v)|\<close> of at most \<open>tol_norm\<close>; the returned pairs are distinct, and no two
  different returned pairs are closer than \<open>tol_du\<close> in \<open>u\<close> and in \<open>v\<close> at once. The
  order in which Python iterates over the set of candidates is the parameter \<open>enum\<close>,
  any enumeration of that set.
\<close>

theorem intersection_bezier_pairs:
  assumes "\<not> is_equal_controlpoints peq cptsa cptsb"
    and "set (enum (intersections limd cptsa cptsb)) = set (intersections limd cptsa cptsb)"
  shows "(\<forall>p \<in> set (intersection_bezier peq limd enum cptsa cptsb).
            \<exists>u v. p = (Some u, Some v) \<and> 0 \<le> u \<and> u \<le> 1 \<and> 0 \<le> v \<and> v \<le> 1
              \<and> pabs (psub (curve_point cptsa u) (curve_point cptsb v)) \<le> tol_norm)
       \<and> distinct (intersection_bezier peq limd enum cptsa cptsb)
       \<and> (\<forall>u v u' v'.
            (Some u, Some v) \<in> set (intersection_bezier peq limd enum cptsa cptsb)
            \<and> (Some u', Some v') \<in> set (intersection_bezier peq limd enum cptsa cptsb)
            \<and> (u, v) \<noteq> (u', v')
            \<longrightarrow> \<not> (\<bar>u - u'\<bar> < tol_du \<and> \<bar>v - v'\<bar> < tol_du))"
proof -
  define kept where
    "kept = filter (\<lambda>p. \<not> residual cptsa cptsb p > tol_norm)
              (filter_close [] (enum (intersections limd cptsa cptsb)))"
  have result: "intersection_bezier peq limd enum cptsa cptsb = map (\<lambda>(ui, vj). (Some ui, Some vj)) kept"
    using assms(1) by (simp add: intersection_bezier_def kept_def)
  have member: "(Some u, Some v) \<in> set (intersection_bezier peq limd enum cptsa cptsb)
      \<longleftrightarrow> (u, v) \<in> set kept" for u v
    unfolding result by auto
  have sub: "set kept \<subseteq> set (intersections limd cptsa cptsb)"
    using filter_close_subset [of "[]" "enum (intersections limd cptsa cptsb)"] assms(2)
    by (auto simp: kept_def)
  have sep: "separated kept"
    unfolding kept_def
    by (intro separated_filter filter_close_separated) (simp add: separated_def)
  have first: "\<exists>u v. p = (Some u, Some v) \<and> 0 \<le> u \<and> u \<le> 1 \<and> 0 \<le> v \<and> v \<le> 1
      \<and> pabs (psub (curve_point cptsa u) (curve_point cptsb v)) \<le> tol_norm"
    if "p \<in> set (intersection_bezier peq limd enum cptsa cptsb)" for p
  proof -
    from that obtain u v where p: "p = (Some u, Some v)" and k: "(u, v) \<in> set kept"
      unfolding result by auto
    from k sub have "0 \<le> u \<and> u \<le> 1 \<and> 0 \<le> v \<and> v \<le> 1"
      using intersections_range by blast
    moreover from k have "pabs (psub (curve_point cptsa u) (curve_point cptsb v)) \<le> tol_norm"
      by (simp add: kept_def residual_def)
    ultimately show ?thesis using p by blast
  qed
  have second: "distinct (intersection_bezier peq limd enum cptsa cptsb)"
    unfolding result using sep
    by (auto simp: distinct_map separated_def inj_on_def)
  have third: "\<not> (\<bar>u - u'\<bar> < tol_du \<and> \<bar>v - v'\<bar> < tol_du)"
    if "(Some u, Some v) \<in> set (intersection_bezier peq limd enum cptsa cptsb)"
      and "(Some u', Some v') \<in> set (intersection_bezier peq limd enum cptsa cptsb)"
      and "(u, v) \<noteq> (u', v')" for u v u' v'
  proof -
    from that(1,2) have "(u, v) \<in> set kept" "(u', v') \<in> set kept"
      by (simp_all add: member)
    with sep that(3) have "\<not> close_pair (u, v) (u', v')"
      unfolding separated_def by blast
    then show ?thesis
      by (simp add: close_pair_def)
  qed
  from first have first': "\<forall>p \<in> set (intersection_bezier peq limd enum cptsa cptsb).
            \<exists>u v. p = (Some u, Some v) \<and> 0 \<le> u \<and> u \<le> 1 \<and> 0 \<le> v \<and> v \<le> 1
              \<and> pabs (psub (curve_point cptsa u) (curve_point cptsb v)) \<le> tol_norm"
    by (rule ballI)
  from third have third': "\<forall>u v u' v'.
            (Some u, Some v) \<in> set (intersection_bezier peq limd enum cptsa cptsb)
            \<and> (Some u', Some v') \<in> set (intersection_bezier peq limd enum cptsa cptsb)
            \<and> (u, v) \<noteq> (u', v')
            \<longrightarrow> \<not> (\<bar>u - u'\<bar> < tol_du \<and> \<bar>v - v'\<bar> < tol_du)"
    by (intro allI impI) (elim conjE, rule third)
  from first' second third' show ?thesis
    by (intro conjI)
qed

theorem intersection_bezier_pairs_witness:
  "\<not> is_equal_controlpoints (=) [(0, 0), (1, 1)] [(0, 1), (1, 0)]
   \<and> intersection_bezier (=) (\<lambda>x. x) (\<lambda>xs. xs) [(0, 0), (1, 1)] [(0, 1), (1, 0)]
       = [(Some (1 / 2), Some (1 / 2))]
   \<and> pabs (psub (curve_point [(0, 0), (1, 1)] (1 / 2)) (curve_point [(0, 1), (1, 0)] (1 / 2)))
       \<le> tol_norm"
proof -
  have ne: "\<not> is_equal_controlpoints (=) [(0, 0), (1, 1)] [(0, 1), (1, 0)]"
    by simp
  have en: "set ((\<lambda>xs. xs) (intersections (\<lambda>x. x) [(0, 0), (1, 1)] [(0, 1), (1, 0)]))
      = set (intersections (\<lambda>x. x) [(0, 0), (1, 1)] [(0, 1), (1, 0)])"
    by simp
  have "\<forall>p \<in> set [(Some (1 / 2 :: real), Some (1 / 2 :: real))].
      \<exists>u v. p = (Some u, Some v) \<and> 0 \<le> u \<and> u \<le> 1 \<and> 0 \<le> v \<and> v \<le> 1
        \<and> pabs (psub (curve_point [(0, 0), (1, 1)] u) (curve_point [(0, 1), (1, 0)] v)) \<le> tol_norm"
    using intersection_bezier_pairs
      [of "(=)" "[(0, 0), (1, 1)]" "[(0, 1), (1, 0)]" "\<lambda>xs. xs" "\<lambda>x. x", OF ne en]
    unfolding crossing_result by (rule conjunct1)
  then obtain u v where uv: "(Some (1 / 2 :: real), Some (1 / 2 :: real)) = (Some u, Some v)"
    and r: "pabs (psub (curve_point [(0, 0), (1, 1)] u) (curve_point [(0, 1), (1, 0)] v)) \<le> tol_norm"
    by auto
  from uv have "u = 1 / 2" "v = 1 / 2"
    by simp_all
  with r have "pabs (psub (curve_point [(0, 0), (1, 1)] (1 / 2)) (curve_point [(0, 1), (1, 0)] (1 / 2)))
       \<le> tol_norm"
    by simp
  with ne crossing_result show ?thesis
    by (intro conjI)
qed

text \<open>
  C6, as stated, fails twice. Two segments of degree 1 get \<open>25\<close> starting pairs, not
  \<open>(1 + 3) * (1 + 3) = 16\<close>: both loops run over \<open>range(npts + 1)\<close>. And for a curve of
  degree 2 against a segment of degree 1 the first parameter of a starting pair can be
  \<open>5/4\<close>: \<open>usample\<close> divides by \<open>nptbs\<close>, not by \<open>nptas\<close>.
\<close>

theorem seeds_count_counterexample:
  "length (seeds [(0, 0), (1, 1)] [(0, 1), (1, 0)]) \<noteq> (1 + 3) * (1 + 3)
   \<and> (5 / 4, 0) \<in> set (seeds [(0, 0), (1, 1), (2, 0)] [(0, 1), (1, 0)])"
proof -
  have "seeds [(0, 0), (1, 1), (2, 0)] [(0, 1), (1, 0)] ! 25 = (5 / 4, 0)"
    by code_simp
  moreover have "25 < length (seeds [(0, 0), (1, 1), (2, 0)] [(0, 1), (1, 0)])"
    by (simp add: length_seeds)
  ultimately have "(5 / 4, 0) \<in> set (seeds [(0, 0), (1, 1), (2, 0)] [(0, 1), (1, 0)])"
    using nth_mem [of 25 "seeds [(0, 0), (1, 1), (2, 0)] [(0, 1), (1, 0)]"] by simp
  then show ?thesis
    by (simp add: length_seeds)
qed

text \<open>
  C6, amended: the search starts from exactly \<open>(degA + 4) * (degB + 4)\<close> pairs, that is
  \<open>(nptsA + 3) * (nptsB + 3)\<close> for curves with \<open>nptsA\<close> and \<open>nptsB\<close> control points. For
  every starting pair the second parameter is in \<open>[0, 1]\<close>, the Newton loop of the search
  makes at most 10 passes, and every iterate it produces is clamped into \<open>[0, 1]\<close> in
  both parameters; what the pair contributes to the candidates is the iterate of its last
  pass.
\<close>

theorem intersection_search_bounds:
  "length (seeds cptsa cptsb) = (length cptsa + 3) * (length cptsb + 3)
   \<and> (\<forall>s \<in> set (seeds cptsa cptsb).
         0 \<le> snd s \<and> snd s \<le> 1
         \<and> length (seed_trace limd cptsa cptsb s) \<le> 10
         \<and> (\<forall>r \<in> set (seed_trace limd cptsa cptsb s).
               \<forall>u v. r = Some (u, v) \<longrightarrow> 0 \<le> u \<and> u \<le> 1 \<and> 0 \<le> v \<and> v \<le> 1)
         \<and> (\<forall>u v. seed_result limd cptsa cptsb s = Some (u, v)
               \<longrightarrow> last (seed_trace limd cptsa cptsb s) = Some (u, v)))"
proof -
  have count: "length (seeds cptsa cptsb) = (length cptsa + 3) * (length cptsb + 3)"
    by (rule length_seeds)
  have second: "0 \<le> snd s \<and> snd s \<le> 1" if "s \<in> set (seeds cptsa cptsb)" for s
  proof -
    from that have "(fst s, snd s) \<in> set (seeds cptsa cptsb)"
      by simp
    then show ?thesis
      by (rule seeds_second_range)
  qed
  have iterations: "length (seed_trace limd cptsa cptsb s) \<le> 10" for s
    unfolding seed_trace_def by (rule newton_trace_length)
  have clamped: "\<forall>r \<in> set (seed_trace limd cptsa cptsb s).
         \<forall>u v. r = Some (u, v) \<longrightarrow> 0 \<le> u \<and> u \<le> 1 \<and> 0 \<le> v \<and> v \<le> 1" for s
  proof (intro ballI allI impI)
    fix r u v
    assume "r \<in> set (seed_trace limd cptsa cptsb s)" and "r = Some (u, v)"
    then have "Some (u, v) \<in> set (newton_trace limd cptsa cptsb 10 (fst s) (snd s))"
      by (simp add: seed_trace_def)
    then show "0 \<le> u \<and> u \<le> 1 \<and> 0 \<le> v \<and> v \<le> 1"
      by (rule newton_trace_range)
  qed
  have contributes: "\<forall>u v. seed_result limd cptsa cptsb s = Some (u, v)
         \<longrightarrow> last (seed_trace limd cptsa cptsb s) = Some (u, v)" for s
    by (auto simp: seed_result_def split: option.splits if_splits)
  have "\<forall>s \<in> set (seeds cptsa cptsb).
         0 \<le> snd s \<and> snd s \<le> 1
         \<and> length (seed_trace limd cptsa cptsb s) \<le> 10
         \<and> (\<forall>r \<in> set (seed_trace limd cptsa cptsb s).
               \<forall>u v. r = Some (u, v) \<longrightarrow> 0 \<le> u \<and> u \<le> 1 \<and> 0 \<le> v \<and> v \<le> 1)
         \<and> (\<forall>u v. seed_result limd cptsa cptsb s = Some (u, v)
               \<longrightarrow> last (seed_trace limd cptsa cptsb s) = Some (u, v))"
  proof (rule ballI)
    fix s
    assume s: "s \<in> set (seeds cptsa cptsb)"
    from second [OF s] have "0 \<le> snd s" and "snd s \<le> 1"
      by simp_all
    then show "0 \<le> snd s \<and> snd s \<le> 1
         \<and> length (seed_trace limd cptsa cptsb s) \<le> 10
         \<and> (\<forall>r \<in> set (seed_trace limd cptsa cptsb s).
               \<forall>u v. r = Some (u, v) \<longrightarrow> 0 \<le> u \<and> u \<le> 1 \<and> 0 \<le> v \<and> v \<le> 1)
         \<and> (\<forall>u v. seed_result limd cptsa cptsb s = Some (u, v)
               \<longrightarrow> last (seed_trace limd cptsa cptsb s) = Some (u, v))"
      using iterations [of s] clamped [of s] contributes [of s] by (intro conjI)
  qed
  with count show ?thesis
    by (intro conjI)
qed

theorem intersection_search_bounds_witness:
  "length (seeds [(0, 0), (1, 1)] [(0, 1), (1, 0)]) = 25
   \<and> (1 / 4, 1 / 2) \<in> set (seeds [(0, 0), (1, 1)] [(0, 1), (1, 0)])
   \<and> seed_trace (\<lambda>x. x) [(0, 0), (1, 1)] [(0, 1), (1, 0)] (1 / 4, 1 / 2)
       = [Some (1 / 2, 1 / 2), Some (1 / 2, 1 / 2)]
   \<and> length (seed_trace (\<lambda>x. x) [(0, 0), (1, 1)] [(0, 1), (1, 0)] (1 / 4, 1 / 2)) \<le> 10
   \<and> seed_result (\<lambda>x. x) [(0, 0), (1, 1)] [(0, 1), (1, 0)] (1 / 4, 1 / 2) = Some (1 / 2, 1 / 2)"
proof -
  have "seeds [(0, 0), (1, 1)] [(0, 1), (1, 0)] ! 7 = (1 / 4, 1 / 2)"
    by code_simp
  moreover have "7 < length (seeds [(0, 0), (1, 1)] [(0, 1), (1, 0)])"
    by (simp add: length_seeds)
  ultimately have member: "(1 / 4, 1 / 2) \<in> set (seeds [(0, 0), (1, 1)] [(0, 1), (1, 0)])"
    using nth_mem [of 7 "seeds [(0, 0), (1, 1)] [(0, 1), (1, 0)]"] by simp
  have trace: "seed_trace (\<lambda>x. x) [(0, 0), (1, 1)] [(0, 1), (1, 0)] (1 / 4, 1 / 2)
       = [Some (1 / 2, 1 / 2), Some (1 / 2, 1 / 2)]"
    by (simp add: seed_trace_def eval_nat_numeral crossing_step tol_du_def)
  have result: "seed_result (\<lambda>x. x) [(0, 0), (1, 1)] [(0, 1), (1, 0)] (1 / 4, 1 / 2) = Some (1 / 2, 1 / 2)"
    by (rule crossing_seed)
  have "length (seeds [(0, 0), (1, 1)] [(0, 1), (1, 0)]) = 25"
    and "\<forall>s \<in> set (seeds [(0, 0), (1, 1)] [(0, 1), (1, 0)]).
          length (seed_trace (\<lambda>x. x) [(0, 0), (1, 1)] [(0, 1), (1, 0)] s) \<le> 10"
    using intersection_search_bounds [of "[(0, 0), (1, 1)]" "[(0, 1), (1, 0)]" "\<lambda>x. x"]
    by simp_all
  with member trace result show ?thesis
    by (intro conjI) auto
qed

section \<open>Properties of path pursuit\<close>

lemma triangle_path_negative: "pursue_path on_vertex (=) (- 1) 0 [triangle] = Some (Inr [(- 1, 0), (0, 1), (0, 2), (0, 0)])"
  by (simp add: pursue_path_def pursue_loop.simps pursue_step_def py_index_def find_jordan_def triangle_def on_vertex_def Let_def)

lemma triangle_path: "pursue_path on_vertex (=) 0 0 [triangle] = Some (Inr [(0, 0), (0, 1), (0, 2)])"
  by (simp add: pursue_path_def pursue_loop.simps pursue_step_def py_index_def find_jordan_def triangle_def on_vertex_def Let_def)

lemma py_index_nonneg:
  "0 \<le> i \<Longrightarrow> i < int (length xs) \<Longrightarrow> py_index xs i = Inr (xs ! nat i)"
  by (simp add: py_index_def Let_def)

lemma py_index_last: "xs \<noteq> [] \<Longrightarrow> py_index xs (- 1) = Inr (last xs)"
  by (cases xs rule: rev_cases) (simp_all add: py_index_def Let_def nat_add_distrib)

lemma pairs_at_nonneg:
  "i < length jordans \<Longrightarrow>
   pairs_at jordans (int i) = map (\<lambda>s. (int i, int s)) [0..<length (segments (jordans ! i))]"
  by (simp add: pairs_at_def py_index_nonneg)

lemma length_all_pairs: "length (all_pairs jordans) = total_segments jordans"
proof -
  have "map (\<lambda>i. length (pairs_at jordans (int i))) [0..<length jordans]
      = map (\<lambda>i. length (segments (jordans ! i))) [0..<length jordans]"
    by (simp add: pairs_at_nonneg)
  also have "\<dots> = map (\<lambda>jordan. length (segments jordan)) jordans"
    by (rule nth_equalityI) simp_all
  finally show ?thesis
    by (simp add: all_pairs_def total_segments_def length_concat comp_def)
qed

lemma pairs_at_in_all_pairs:
  assumes "0 \<le> i" and "i < int (length jordans)"
  shows "set (pairs_at jordans i) \<subseteq> set (all_pairs jordans)"
proof
  fix p
  assume "p \<in> set (pairs_at jordans i)"
  with assms(1) have "p \<in> set (pairs_at jordans (int (nat i)))"
    by simp
  moreover from assms have "nat i \<in> set [0..<length jordans]"
    by simp
  ultimately show "p \<in> set (all_pairs jordans)"
    unfolding all_pairs_def set_concat set_map by blast
qed

lemma find_jordan_bound:
  "find_jordan in_jordan jordans index_jordan last_point = Some i \<Longrightarrow> i < length jordans"
  by (auto simp: find_jordan_def find_Some_iff)

lemma find_start_no_error:
  "list_all (\<lambda>s. s \<noteq> []) segs \<Longrightarrow> \<exists>r. find_start peq last_point j segs = Inr r"
  by (induction segs arbitrary: j) (auto split: list.splits)

lemma pursue_step_stop:
  "pursue_step in_jordan peq jordans (ij, is, m) = Inr (Inl m') \<Longrightarrow> m' = m"
  by (auto simp: pursue_step_def Let_def split: sum.splits if_splits option.splits)

lemma pursue_step_next:
  assumes "pursue_step in_jordan peq jordans (ij, is, m) = Inr (Inr (ij', is', m'))"
  shows "\<exists>p. m' = m @ [p] \<and> p \<notin> set m \<and> p \<in> set (pairs_at jordans ij)
           \<and> (ij' = ij \<or> (0 \<le> ij' \<and> ij' < int (length jordans)))"
proof -
  from assms obtain segs where segs: "py_index (map segments jordans) ij = Inr segs" "segs \<noteq> []"
    by (auto simp: pursue_step_def split: sum.splits if_splits)
  define k where "k = is mod int (length segs)"
  from segs(2) have k: "0 \<le> k" "k < int (length segs)"
    by (simp_all add: k_def)
  then have "nat k < length segs" "int (nat k) = k"
    by simp_all
  then have mem: "(ij, k) \<in> set (pairs_at jordans ij)"
    unfolding pairs_at_def segs by (force simp: in_set_conv_nth)
  from assms segs have "m' = m @ [(ij, k)] \<and> (ij, k) \<notin> set m
      \<and> (ij' = ij \<or> (0 \<le> ij' \<and> ij' < int (length jordans)))"
    using find_jordan_bound [of in_jordan jordans ij]
    by (auto simp: pursue_step_def Let_def k_def split: sum.splits if_splits option.splits)
  with mem show ?thesis
    by blast
qed

lemma pursue_step_no_error:
  assumes "well_formed jordans" and "0 \<le> ij" and "ij < int (length jordans)"
  shows "pursue_step in_jordan peq jordans (ij, is, m) \<noteq> Inl e"
proof -
  define segs where "segs = segments (jordans ! nat ij)"
  from assms(2,3) have idx: "py_index (map segments jordans) ij = Inr segs"
    by (simp add: py_index_nonneg segs_def)
  from assms have "jordans ! nat ij \<in> set jordans"
    by simp
  with assms(1) have segs: "segs \<noteq> []" "list_all (\<lambda>s. s \<noteq> []) segs"
    by (simp_all add: well_formed_def list_all_iff segs_def)
  define k where "k = is mod int (length segs)"
  from segs(1) have "0 \<le> k" "k < int (length segs)"
    by (simp_all add: k_def)
  then have "segs ! nat k \<in> set segs"
    by simp
  with segs(2) have "segs ! nat k \<noteq> []"
    by (simp add: list_all_iff)
  then have last: "py_index (segs ! nat k) (- 1) = Inr (last (segs ! nat k))"
    by (rule py_index_last)
  have start: "\<exists>r. find_start peq p 0 (segments (jordans ! i)) = Inr r" if "i < length jordans" for i p
  proof -
    from that have "jordans ! i \<in> set jordans"
      by simp
    with assms(1) have "list_all (\<lambda>s. s \<noteq> []) (segments (jordans ! i))"
      by (simp add: well_formed_def list_all_iff)
    then show ?thesis
      by (rule find_start_no_error)
  qed
  show ?thesis
  proof (cases "find_jordan in_jordan jordans ij (last (segs ! nat k))")
    case None
    then show ?thesis
      using idx segs(1) last
      by (simp add: pursue_step_def Let_def k_def [symmetric])
  next
    case (Some i)
    then have "i < length jordans"
      by (rule find_jordan_bound)
    from start [OF this] obtain r where
      "find_start peq (last (segs ! nat k)) 0 (segments (jordans ! i)) = Inr r"
      by blast
    then show ?thesis
      using idx segs(1) last Some
      by (cases r) (simp_all add: pursue_step_def Let_def k_def [symmetric])
  qed
qed

lemma distinct_subset_length:
  assumes "distinct xs" and "set xs \<subseteq> set ys"
  shows "length xs \<le> length ys"
proof -
  have "length xs = card (set xs)"
    using assms(1) by (simp add: distinct_card)
  also have "\<dots> \<le> card (set ys)"
    using assms(2) by (simp add: card_mono)
  also have "\<dots> \<le> length ys"
    by (rule card_length)
  finally show ?thesis .
qed

lemma pursue_loop_terminates:
  assumes "distinct m"
    and "set m \<subseteq> set (pairs_at jordans ij0 @ all_pairs jordans)"
    and "ij = ij0 \<or> (0 \<le> ij \<and> ij < int (length jordans))"
  shows "\<exists>r. pursue_loop in_jordan peq jordans (ij, is, m) = Some r
           \<and> (\<forall>m'. r = Inr m' \<longrightarrow>
                 distinct m' \<and> set m' \<subseteq> set (pairs_at jordans ij0 @ all_pairs jordans))
           \<and> (well_formed jordans \<and> 0 \<le> ij \<and> ij < int (length jordans) \<longrightarrow> (\<exists>m'. r = Inr m'))"
  using assms
proof (induction "length (pairs_at jordans ij0 @ all_pairs jordans) - length m"
    arbitrary: ij "is" m rule: less_induct)
  case less
  let ?ext = "pairs_at jordans ij0 @ all_pairs jordans"
  show ?case
  proof (cases "pursue_step in_jordan peq jordans (ij, is, m)")
    case (Inl e)
    then have "pursue_loop in_jordan peq jordans (ij, is, m) = Some (Inl e)"
      by (subst pursue_loop.simps) simp
    moreover from Inl have "\<not> (well_formed jordans \<and> 0 \<le> ij \<and> ij < int (length jordans))"
      using pursue_step_no_error by blast
    ultimately show ?thesis
      by simp
  next
    case (Inr x)
    show ?thesis
    proof (cases x)
      case (Inl m')
      with Inr have "m' = m"
        using pursue_step_stop by blast
      with Inr Inl have "pursue_loop in_jordan peq jordans (ij, is, m) = Some (Inr m)"
        by (subst pursue_loop.simps) simp
      with less.prems show ?thesis
        by simp
    next
      case (Inr st')
      obtain ij' is' m' where st': "st' = (ij', is', m')"
        by (cases st') auto
      with \<open>pursue_step in_jordan peq jordans (ij, is, m) = Inr x\<close> Inr
      have step: "pursue_step in_jordan peq jordans (ij, is, m) = Inr (Inr (ij', is', m'))"
        by simp
      then obtain p where p: "m' = m @ [p]" "p \<notin> set m" "p \<in> set (pairs_at jordans ij)"
        and ij': "ij' = ij \<or> (0 \<le> ij' \<and> ij' < int (length jordans))"
        using pursue_step_next by blast
      from p(3) less.prems(3) have "p \<in> set ?ext"
        using pairs_at_in_all_pairs [of ij jordans] by auto
      with p less.prems have d: "distinct m'" and s: "set m' \<subseteq> set ?ext"
        by simp_all
      then have "length m' \<le> length ?ext"
        by (rule distinct_subset_length)
      with p(1) have decr: "length ?ext - length m' < length ?ext - length m"
        by simp
      from ij' less.prems(3) have v: "ij' = ij0 \<or> (0 \<le> ij' \<and> ij' < int (length jordans))"
        by auto
      from less.hyps [OF decr d s v, of is'] obtain r where
        r: "pursue_loop in_jordan peq jordans (ij', is', m') = Some r"
        and round64_one: "\<forall>m''. r = Inr m'' \<longrightarrow> distinct m'' \<and> set m'' \<subseteq> set ?ext"
        and r2: "well_formed jordans \<and> 0 \<le> ij' \<and> ij' < int (length jordans) \<longrightarrow> (\<exists>m''. r = Inr m'')"
        by blast
      from step r have "pursue_loop in_jordan peq jordans (ij, is, m) = Some r"
        by (subst pursue_loop.simps) simp
      moreover from ij' r2 have
        "well_formed jordans \<and> 0 \<le> ij \<and> ij < int (length jordans) \<longrightarrow> (\<exists>m''. r = Inr m'')"
        by auto
      ultimately show ?thesis
        using round64_one by simp
    qed
  qed
qed

text \<open>
  C10, amended: \<open>pursue_path\<close> terminates on every input, whatever the membership and
  equality tests answer (no assumption on triple intersections), and a returned matrix
  has no repeated pair. When \<open>index_jordan\<close> is a non-negative index into a list of curves
  that all have segments with control points, it returns a matrix, and the length of the
  matrix is at most the number of segments of all curves together. Each pass of the loop
  either stops or appends a pair that is not in the path (\<open>pursue_step_stop\<close>,
  \<open>pursue_step_next\<close>).
\<close>

theorem pursue_path_terminates:
  "(\<exists>r. pursue_path in_jordan peq index_jordan index_segment jordans = Some r
        \<and> (\<forall>matrix. r = Inr matrix \<longrightarrow> distinct matrix))
   \<and> (well_formed jordans \<and> 0 \<le> index_jordan \<and> index_jordan < int (length jordans) \<longrightarrow>
        (\<exists>matrix. pursue_path in_jordan peq index_jordan index_segment jordans = Some (Inr matrix)
           \<and> distinct matrix \<and> length matrix \<le> total_segments jordans))"
proof -
  let ?ext = "pairs_at jordans index_jordan @ all_pairs jordans"
  from pursue_loop_terminates [of "[]" jordans index_jordan index_jordan in_jordan peq index_segment]
  obtain r where r: "pursue_path in_jordan peq index_jordan index_segment jordans = Some r"
    and round64_one: "\<forall>m'. r = Inr m' \<longrightarrow> distinct m' \<and> set m' \<subseteq> set ?ext"
    and r2: "well_formed jordans \<and> 0 \<le> index_jordan \<and> index_jordan < int (length jordans)
        \<longrightarrow> (\<exists>m'. r = Inr m')"
    unfolding pursue_path_def by auto
  have first: "\<exists>r. pursue_path in_jordan peq index_jordan index_segment jordans = Some r
        \<and> (\<forall>matrix. r = Inr matrix \<longrightarrow> distinct matrix)"
    using r round64_one by blast
  have second: "\<exists>matrix. pursue_path in_jordan peq index_jordan index_segment jordans = Some (Inr matrix)
           \<and> distinct matrix \<and> length matrix \<le> total_segments jordans"
    if wf: "well_formed jordans \<and> 0 \<le> index_jordan \<and> index_jordan < int (length jordans)"
  proof -
    from wf r2 obtain matrix where m: "r = Inr matrix"
      by blast
    with round64_one have d: "distinct matrix" and "set matrix \<subseteq> set ?ext"
      by simp_all
    moreover from wf have "set ?ext \<subseteq> set (all_pairs jordans)"
      using pairs_at_in_all_pairs [of index_jordan jordans] by simp
    ultimately have "set matrix \<subseteq> set (all_pairs jordans)"
      by blast
    with d have "length matrix \<le> length (all_pairs jordans)"
      by (rule distinct_subset_length)
    with r m d show ?thesis
      by (simp add: length_all_pairs)
  qed
  from first second show ?thesis
    by blast
qed

lemma triangle_wf: "well_formed [triangle]"
  by (simp add: well_formed_def triangle_def)

theorem pursue_path_terminates_witness:
  "well_formed [triangle] \<and> (0::int) \<le> 0 \<and> (0::int) < int (length [triangle])
   \<and> pursue_path on_vertex (=) 0 0 [triangle] = Some (Inr [(0, 0), (0, 1), (0, 2)])
   \<and> distinct [(0, 0), (0, 1), (0, 2) :: int \<times> int]
   \<and> length [(0, 0), (0, 1), (0, 2) :: int \<times> int] \<le> total_segments [triangle]"
  using pursue_path_terminates [of on_vertex "(=)" 0 0 "[triangle]"] triangle_wf triangle_path
  by (simp add: total_segments_def triangle_def)

text \<open>
  C10, as stated for any starting indices, fails: with \<open>index_jordan = -1\<close> Python indexes
  the last curve, the first pair is \<open>(-1, 0)\<close>, and the walk then goes once around the
  same curve under its index \<open>0\<close>: four pairs for a curve of three segments.
\<close>

theorem pursue_path_negative_index:
  "pursue_path on_vertex (=) (- 1) 0 [triangle] = Some (Inr [(- 1, 0), (0, 1), (0, 2), (0, 0)])
   \<and> \<not> length [(- 1, 0), (0, 1), (0, 2), (0, 0) :: int \<times> int] \<le> total_segments [triangle]"
proof -
  have "total_segments [triangle] = 3"
    by (simp add: total_segments_def triangle_def)
  with triangle_path_negative show ?thesis
    by simp
qed

section \<open>Properties of clean\<close>

lemma clean_times_None:
  "length ctrlpoints = 3 \<Longrightarrow> clean_times N None ctrlpoints 2 0 = Inr 1"
  by (simp add: degree_decrease_def Let_def split: prod.splits)

text \<open>
  C9: \<open>clean(None)\<close> on a curve of degree 2 (three control points) returns the receiver,
  whose control points are then the product of the transformation matrix
  \<open>degree_decrease(2, 1)[0]\<close> with the old control points, whatever the error matrix
  holds: the comparison with the tolerance is not made. With a transformation matrix of
  two rows, as the least-squares reduction to degree 1 has, the curve is left with two
  control points.
\<close>

theorem clean_without_tolerance:
  assumes "length ctrlpoints = 3" and "length (fst (spline2spline N 2 1)) = 2"
  shows "PlanarCurve_clean N None ctrlpoints
           = Inr (ReturnsSelf, dot_matrix_points (fst (spline2spline N 2 1)) ctrlpoints)
         \<and> length (dot_matrix_points (fst (spline2spline N 2 1)) ctrlpoints) = 2"
  using assms clean_times_None [OF assms(1), of N]
  by (simp add: PlanarCurve_clean_def BezierCurve_clean_def degree_decrease_def Let_def
      dot_matrix_points_def split: prod.splits)

theorem clean_without_tolerance_witness:
  "length [(0, 0), (1, 1), (2, 0) :: point] = 3
   \<and> length (fst (spline2spline sample_tables 2 1)) = 2
   \<and> PlanarCurve_clean sample_tables None [(0, 0), (1, 1), (2, 0)] = Inr (ReturnsSelf, [(0, 0), (2, 0)])"
proof -
  have a: "length [(0, 0), (1, 1), (2, 0) :: point] = 3"
    by simp
  have b: "length (fst (spline2spline sample_tables 2 1)) = 2"
    by (simp add: sample_tables_def)
  have "dot_matrix_points (fst (spline2spline sample_tables 2 1)) [(0, 0), (1, 1), (2, 0)]
      = [(0, 0), (2, 0)]"
    by (simp add: sample_tables_def dot_matrix_points_def padd_def pscale_def)
  with clean_without_tolerance [OF a b] a b show ?thesis
    by simp
qed

section \<open>Properties of the signed length\<close>

lemma bezier_caract_matrix_0: "bezier_caract_matrix 0 = [[1]]"
  by (simp add: bezier_caract_matrix_def comb_def)

lemma sample_segment_lenght: "IntegratePlanar_lenght sample_tables [(x0, y0), (x1, y1)] None
   = Inr (sqrt ((x1 - x0)\<^sup>2 + (y1 - y0)\<^sup>2))"
  by (simp add: IntegratePlanar_lenght_def polynomial_def derivate_def non_rational_bezier_def
      sample_tables_def dot_matrix_points_def PlanarCurve_new_def eval_def point_arith_def bezier_caract_matrix_0 dot_points_matrix_def
      horner_method_def np_inner_def pabs_def inner_def padd_def pscale_def Let_def upt_rec power2_eq_square
      eval_nat_numeral)

lemma sample_segment_area: "IntegratePlanar_area sample_tables [(x0, y0), (x1, y1)] None
   = Inr ((x0 + x1) / 2 * (y1 - y0))"
  by (simp add: IntegratePlanar_area_def vertical_def derivate_def non_rational_bezier_def
      sample_tables_def dot_matrix_points_def PlanarCurve_new_def eval_def point_arith_def bezier_caract_matrix_0 bezier_caract_matrix_1
      dot_points_matrix_def
      horner_method_def np_inner_def inner_def padd_def pscale_def Let_def upt_rec
      eval_nat_numeral field_simps)

lemma square_lenght: "0 \<le> a \<Longrightarrow> IntegrateJordan_lenght sample_tables (fresh (square a)) None = Inr (4 * a)"
  by (simp add: IntegrateJordan_lenght_def fresh_def square_def sample_segment_lenght)

lemma square_area: "IntegrateJordan_area sample_tables (fresh (square a)) None = Inr (a * a)"
  by (simp add: IntegrateJordan_area_def fresh_def square_def sample_segment_area)

lemma square_signed:
  assumes "0 < a"
  shows "lenght sample_tables (fresh (square a))
    = Inr (4 * a, (fresh (square a))\<lparr>lenght_cache := Some (4 * a)\<rparr>)"
proof -
  have c: "lenght_cache (fresh (square a)) = None"
    by (simp add: fresh_def)
  from assms have "0 < a * a"
    by simp
  then show ?thesis
    unfolding lenght_def c using square_lenght [of a] square_area [of a] assms
    by (simp add: Let_def)
qed

lemma total_of_sum:
  "total_of subtotal rs = Inr t \<Longrightarrow> \<exists>vals. rs = map Inr vals \<and> t = subtotal + sum_list vals"
proof (induction subtotal rs rule: total_of.induct)
  case (1 subtotal)
  then show ?case by simp
next
  case (2 subtotal e uu)
  then show ?case by simp
next
  case (3 subtotal x rest)
  then obtain vals where "rest = map Inr vals" "t = subtotal + x + sum_list vals"
    by auto
  then show ?case
    by (intro exI [of _ "x # vals"]) simp
qed

text \<open>
  Read with an empty cache, the property \<open>lenght\<close> returns the sum of the per-segment
  length integrals when the sum of the per-segment area integrals is positive, and the
  negated sum otherwise, and stores it. So for a curve of positive arc length, the value
  computed on an empty cache is positive exactly when the area is positive.
\<close>

lemma lenght_signed_by_area:
  assumes "lenght_cache self = None"
    and "IntegrateJordan_lenght N self None = Inr arc"
    and "IntegrateJordan_area N self None = Inr area"
  shows "\<exists>signed. lenght N self = Inr (signed, self\<lparr>lenght_cache := Some signed\<rparr>)
           \<and> signed = (if 0 < area then arc else - arc)
           \<and> (\<exists>lens. map (\<lambda>bezier. IntegratePlanar_lenght N bezier None) (segments self) = map Inr lens
                 \<and> arc = sum_list lens)
           \<and> (0 < arc \<longrightarrow> (0 < signed \<longleftrightarrow> 0 < area))"
proof -
  from assms(2) obtain lens where
    "map (\<lambda>bezier. IntegratePlanar_lenght N bezier None) (segments self) = map Inr lens"
    and "arc = sum_list lens"
    unfolding IntegrateJordan_lenght_def using total_of_sum by fastforce
  moreover have "lenght N self
      = Inr (if 0 < area then arc else - arc, self\<lparr>lenght_cache := Some (if 0 < area then arc else - arc)\<rparr>)"
    using assms by (simp add: lenght_def Let_def)
  ultimately show ?thesis
    by auto
qed

lemma lenght_signed_by_area_square:
  "lenght_cache (fresh (square 1)) = None
   \<and> IntegrateJordan_lenght sample_tables (fresh (square 1)) None = Inr 4
   \<and> IntegrateJordan_area sample_tables (fresh (square 1)) None = Inr 1
   \<and> lenght sample_tables (fresh (square 1)) = Inr (4, (fresh (square 1))\<lparr>lenght_cache := Some 4\<rparr>)"
proof -
  have a: "lenght_cache (fresh (square 1)) = None"
    by (simp add: fresh_def)
  have b: "IntegrateJordan_lenght sample_tables (fresh (square 1)) None = Inr 4"
    using square_lenght [of 1] by simp
  have c: "IntegrateJordan_area sample_tables (fresh (square 1)) None = Inr 1"
    using square_area [of 1] by simp
  from lenght_signed_by_area [OF a b c] a b c show ?thesis
    by auto
qed

lemma lenght_cached: "lenght_cache self = Some l \<Longrightarrow> lenght N self = Inr (l, self)"
  by (simp add: lenght_def)

lemma scale_keeps_lenght_cache: "lenght_cache (scale peq xscale yscale self) = lenght_cache self"
  by (simp add: scale_def transform_vertices_def vertices_def Let_def split: option.splits prod.splits)

lemma scale_segments:
  "segments (scale peq xscale yscale self) = map (map (point_scale xscale yscale)) (segments self)"
  by (simp add: scale_def transform_vertices_def vertices_def Let_def split: option.splits prod.splits)

text \<open>
  C4 fails on the code at its own example. On the unit square the first read of
  \<open>lenght\<close> gives 4 and fills the cache; \<open>scale(2, 2)\<close> turns the segments into those of
  the square of side 2 and keeps the cache; the next read returns the cached 4, where a
  curve built from the same segments gives 8.
\<close>

theorem scale_leaves_stale_lenght:
  "lenght sample_tables (fresh (square 1)) = Inr (4, (fresh (square 1))\<lparr>lenght_cache := Some 4\<rparr>)
   \<and> segments (scale (=) 2 2 ((fresh (square 1))\<lparr>lenght_cache := Some 4\<rparr>)) = square 2
   \<and> lenght sample_tables (scale (=) 2 2 ((fresh (square 1))\<lparr>lenght_cache := Some 4\<rparr>))
       = Inr (4, scale (=) 2 2 ((fresh (square 1))\<lparr>lenght_cache := Some 4\<rparr>))
   \<and> lenght sample_tables (fresh (square 2)) = Inr (8, (fresh (square 2))\<lparr>lenght_cache := Some 8\<rparr>)"
proof -
  have first: "lenght sample_tables (fresh (square 1))
      = Inr (4, (fresh (square 1))\<lparr>lenght_cache := Some 4\<rparr>)"
    using square_signed [of 1] by simp
  have geometry: "segments (scale (=) 2 2 ((fresh (square 1))\<lparr>lenght_cache := Some 4\<rparr>)) = square 2"
    by (simp add: scale_segments fresh_def square_def point_scale_def)
  have "lenght_cache (scale (=) 2 2 ((fresh (square 1))\<lparr>lenght_cache := Some 4\<rparr>)) = Some 4"
    by (simp add: scale_keeps_lenght_cache)
  then have stale: "lenght sample_tables (scale (=) 2 2 ((fresh (square 1))\<lparr>lenght_cache := Some 4\<rparr>))
       = Inr (4, scale (=) 2 2 ((fresh (square 1))\<lparr>lenght_cache := Some 4\<rparr>))"
    by (rule lenght_cached)
  have recomputed: "lenght sample_tables (fresh (square 2))
      = Inr (8, (fresh (square 2))\<lparr>lenght_cache := Some 8\<rparr>)"
    using square_signed [of 2] by simp
  from first geometry stale recomputed show ?thesis
    by (intro conjI)
qed

lemma mirrored_square:
  "segments (scale (=) (- 1) 1 ((fresh (square 1))\<lparr>lenght_cache := Some 4\<rparr>))
     = [[(0, 0), (- 1, 0)], [(- 1, 0), (- 1, 1)], [(- 1, 1), (0, 1)], [(0, 1), (0, 0)]]"
  by (simp add: scale_segments fresh_def square_def point_scale_def)

text \<open>
  C7 fails on the code for a curve whose length has been read before a mirroring. On the
  unit square the first read of \<open>lenght\<close> gives 4 and fills the cache. \<open>scale(-1, 1)\<close>
  mirrors the segments, so the curve now runs clockwise: its arc length is still 4 and
  its area integral is \<open>-1\<close>, and a read on an empty cache would give \<open>-4\<close>. The
  property returns the cached \<open>4\<close>, a positive length for a curve of negative area.
\<close>

theorem lenght_sign_stale_after_mirror:
  "lenght sample_tables (fresh (square 1)) = Inr (4, (fresh (square 1))\<lparr>lenght_cache := Some 4\<rparr>)
   \<and> IntegrateJordan_lenght sample_tables
         (scale (=) (- 1) 1 ((fresh (square 1))\<lparr>lenght_cache := Some 4\<rparr>)) None = Inr 4
   \<and> IntegrateJordan_area sample_tables
         (scale (=) (- 1) 1 ((fresh (square 1))\<lparr>lenght_cache := Some 4\<rparr>)) None = Inr (- 1)
   \<and> lenght sample_tables (scale (=) (- 1) 1 ((fresh (square 1))\<lparr>lenght_cache := Some 4\<rparr>))
       = Inr (4, scale (=) (- 1) 1 ((fresh (square 1))\<lparr>lenght_cache := Some 4\<rparr>))
   \<and> lenght sample_tables
         (fresh (segments (scale (=) (- 1) 1 ((fresh (square 1))\<lparr>lenght_cache := Some 4\<rparr>))))
       = Inr (- 4, (fresh (segments (scale (=) (- 1) 1 ((fresh (square 1))\<lparr>lenght_cache := Some 4\<rparr>))))
                    \<lparr>lenght_cache := Some (- 4)\<rparr>)"
proof -
  let ?read = "(fresh (square 1))\<lparr>lenght_cache := Some 4\<rparr>"
  let ?mirrored = "scale (=) (- 1) 1 ?read"
  have first: "lenght sample_tables (fresh (square 1)) = Inr (4, ?read)"
    using square_signed [of 1] by simp
  have arc: "IntegrateJordan_lenght sample_tables ?mirrored None = Inr 4"
    by (simp add: IntegrateJordan_lenght_def mirrored_square sample_segment_lenght)
  have area: "IntegrateJordan_area sample_tables ?mirrored None = Inr (- 1)"
    by (simp add: IntegrateJordan_area_def mirrored_square sample_segment_area)
  have "lenght_cache ?mirrored = Some 4"
    by (simp add: scale_keeps_lenght_cache)
  then have stale: "lenght sample_tables ?mirrored = Inr (4, ?mirrored)"
    by (rule lenght_cached)
  have arc': "IntegrateJordan_lenght sample_tables (fresh (segments ?mirrored)) None = Inr 4"
    using arc by (simp add: IntegrateJordan_lenght_def fresh_def)
  have area': "IntegrateJordan_area sample_tables (fresh (segments ?mirrored)) None = Inr (- 1)"
    using area by (simp add: IntegrateJordan_area_def fresh_def)
  have "lenght_cache (fresh (segments ?mirrored)) = None"
    by (simp add: fresh_def)
  then have recomputed: "lenght sample_tables (fresh (segments ?mirrored))
      = Inr (- 4, (fresh (segments ?mirrored))\<lparr>lenght_cache := Some (- 4)\<rparr>)"
    using arc' area' by (simp add: lenght_def Let_def)
  from first arc area stale recomputed show ?thesis
    by (intro conjI)
qed

section \<open>Properties of the shapes\<close>
















lemma polygon_float:
  assumes "IntegrateJordan_lenght N (fresh segs) None = Inr arc"
    and "IntegrateJordan_area N (fresh segs) None = Inr area"
  shows "curve_float N segs = (if 0 < area then arc else - arc)"
  using assms by (simp add: curve_float_def lenght_def fresh_def Let_def)



















end
